theory Spec2Isabelle
  imports Main "HOL-Library.AList" "HOL-Library.Sublist" "HOL-Library.Char_ord"
    "HOL-Library.List_Lexorder" "HOL-Library.Multiset"
begin

section \<open>Common notions\<close>

text \<open>
  A Go call either returns a value or panics (the Go runtime unwinds and, in this
  library, nothing recovers, so the process aborts). Errors that the library returns
  as \<open>error\<close> values are kept apart from panics: they are ordinary results.
  Go strings are byte sequences; \<open>char\<close> is an eight-bit byte.
\<close>

datatype panic_value =
    IndexOutOfRange nat nat  \<comment> \<open>runtime error: index out of range [i] with length n\<close>
  | NilDereference           \<comment> \<open>runtime error: invalid memory address or nil pointer dereference\<close>
  | PanicString string       \<comment> \<open>\<open>panic(msg)\<close> called by the library itself\<close>

datatype 'a outcome = Panic panic_value | Return 'a

section \<open>URL assembler (\<open>MontageUrl\<close>)\<close>

text \<open>
  \<open>strings.Contains(s, substr)\<close> of the standard library: \<open>substr\<close> occurs in \<open>s\<close>
  as a contiguous run of bytes. The empty string occurs in every string.
\<close>

fun Contains :: "string \<Rightarrow> string \<Rightarrow> bool" where
  "Contains [] substr = (substr = [])"
| "Contains (c # cs) substr = (prefix substr (c # cs) \<or> Contains cs substr)"

text \<open>
  The conversion \<open>string(b)\<close> of a single byte \<open>b\<close>: Go reads the byte as a code point
  and yields its UTF-8 encoding (one byte below 128, two bytes from 128 on).
\<close>

definition byte_to_string :: "char \<Rightarrow> string" where
  "byte_to_string b =
     (let n = (of_char b :: nat)
      in if n < 128 then [b] else [char_of (192 + n div 64), char_of (128 + n mod 64)])"

text \<open>
  \<open>MontageUrl(host, apiUrl, pathParam...)\<close>. The path segments are values of any type,
  rendered by the verb \<open>%v\<close> of \<open>fmt.Sprintf\<close>; the rendering \<open>fmt_v\<close> of a segment is a
  parameter (for a string it is the string itself, which is how \<open>host\<close> and \<open>apiUrl\<close>
  are rendered). Indexing \<open>apiUrl[0]\<close> of an empty string panics, and it is evaluated
  before \<open>strings.Contains\<close>.
\<close>

definition MontageUrl :: "('a \<Rightarrow> string) \<Rightarrow> string \<Rightarrow> string \<Rightarrow> 'a list \<Rightarrow> string outcome" where
  "MontageUrl fmt_v host apiUrl pathParam =
     (case apiUrl of
        [] \<Rightarrow> Panic (IndexOutOfRange 0 0)
      | c # _ \<Rightarrow>
          if byte_to_string c \<noteq> ''/'' \<or> Contains apiUrl host then Return ''''
          else if length pathParam = 0 then Return (''https://'' @ host @ apiUrl)
          else
            let newPathParam = foldl (\<lambda>acc v. acc @ ''/'' @ fmt_v v) '''' pathParam
            in Return (''https://'' @ host @ apiUrl @ newPathParam))"

text \<open>Two kinds of segment for concrete runs: strings and non-negative integers.\<close>

datatype segment = SegString string | SegNat nat

fun digits :: "nat \<Rightarrow> string" where
  "digits n =
     (if n < 10 then [char_of (48 + n)]
      else digits (n div 10) @ [char_of (48 + n mod 10)])"

declare digits.simps [simp del]

fun Sprint_v :: "segment \<Rightarrow> string" where
  "Sprint_v (SegString s) = s"
| "Sprint_v (SegNat n) = digits n"

section \<open>Request descriptor and options\<close>

text \<open>
  \<open>time.Duration\<close> is a count of nanoseconds. The library only stores it.
\<close>

type_synonym Duration = int

definition Second :: Duration where
  "Second = 1000000000"

text \<open>
  The struct \<open>HttpRequests\<close>. A Go map is an association list with distinct keys, in
  the order in which a \<open>range\<close> loop happens to visit it. \<open>Cookies\<close> holds pointers:
  \<open>None\<close> is a nil pointer. A nil slice and an empty slice are both \<open>[]\<close>.
\<close>

record 'ck HttpRequests =
  Method :: string
  URL :: string
  Headers :: "(string \<times> string) list"
  Cookies :: "'ck option list"
  Timeout :: Duration
  PostBody :: string
  Params :: string

text \<open>
  \<open>type Option func(*HttpRequests)\<close>: an option updates the descriptor in place, or
  panics.
\<close>

type_synonym 'ck Option = "'ck HttpRequests \<Rightarrow> 'ck HttpRequests outcome"

definition WithHeaders :: "(string \<times> string) list \<Rightarrow> 'ck Option" where
  "WithHeaders headers = (\<lambda>req. Return (req\<lparr>Headers := headers\<rparr>))"

definition WithTimeout :: "Duration \<Rightarrow> 'ck Option" where
  "WithTimeout timeout = (\<lambda>req. Return (req\<lparr>Timeout := timeout\<rparr>))"

definition WithCookies :: "'ck option list \<Rightarrow> 'ck Option" where
  "WithCookies cookies = (\<lambda>req. Return (req\<lparr>Cookies := cookies\<rparr>))"

text \<open>
  \<open>WithPostJsonBody\<close>: \<open>json.Marshal\<close> belongs to the Go standard library and is a
  parameter, \<open>Inl\<close> its error.
\<close>

definition WithPostJsonBody :: "('d \<Rightarrow> string + string) \<Rightarrow> 'd \<Rightarrow> 'ck Option" where
  "WithPostJsonBody json_Marshal payload =
     (\<lambda>req. case json_Marshal payload of
         Inl err \<Rightarrow> Panic (PanicString ''convert postBody to string error'')
       | Inr dataToStr \<Rightarrow> Return (req\<lparr>PostBody := dataToStr\<rparr>))"

definition WithPostStringBody :: "string \<Rightarrow> 'ck Option" where
  "WithPostStringBody payload = (\<lambda>req. Return (req\<lparr>PostBody := payload\<rparr>))"

section \<open>Query parameters (\<open>WithParams\<close>)\<close>

text \<open>
  \<open>WithParams\<close> builds a \<open>url.Values\<close> with \<open>Set\<close> and stores its \<open>Encode()\<close>. These
  belong to the package \<open>net/url\<close> of the Go standard library, whose code is missing from
  the sources of the repository. The spec asks for a deterministic encoding that escapes
  by the standard rules for URL queries, and for pairs that round-trip through decoding;
  the definitions marked below follow what \<open>net/url\<close> does for a query component.
\<close>

text \<open>
  Modelled from the spec: the type \<open>url.Values\<close> (missing, standard library), a map
  from a key to the list of its values, as an association list with distinct keys.
\<close>

type_synonym Values = "(string \<times> string list) list"

text \<open>
  Modelled from the spec: \<open>Values.Set\<close> (missing, standard library) replaces the values
  of a key by a single value.
\<close>

definition Values_Set :: "string \<Rightarrow> string \<Rightarrow> Values \<Rightarrow> Values" where
  "Values_Set key val v = AList.update key [val] v"

text \<open>
  Modelled from the spec: the table \<open>upperhex\<close> (missing, standard library) of the
  upper-case hexadecimal digits.
\<close>

definition upperhex :: "nat \<Rightarrow> char" where
  "upperhex n = ''0123456789ABCDEF'' ! n"

text \<open>
  Modelled from the spec: the bytes that the standard rules for a query component leave
  alone (missing, standard library): ASCII letters, digits, and \<open>-_.~\<close>.
\<close>

definition unreserved :: "char \<Rightarrow> bool" where
  "unreserved c =
     (let n = (of_char c :: nat)
      in (97 \<le> n \<and> n \<le> 122) \<or> (65 \<le> n \<and> n \<le> 90) \<or> (48 \<le> n \<and> n \<le> 57) \<or>
         c \<in> set ''-_.~'')"

text \<open>
  Modelled from the spec: \<open>shouldEscape\<close> for a query component (missing, standard
  library): every other byte is escaped.
\<close>

definition shouldEscape :: "char \<Rightarrow> bool" where
  "shouldEscape c = (\<not> unreserved c)"

text \<open>
  Modelled from the spec: what \<open>escape\<close> (missing, standard library) writes for one
  byte: \<open>+\<close> for a space, \<open>%\<close> and two hexadecimal digits for a byte to escape, the
  byte itself otherwise.
\<close>

definition escape_byte :: "char \<Rightarrow> string" where
  "escape_byte c =
     (if c = CHR '' '' then ''+''
      else if shouldEscape c
        then [CHR ''%'', upperhex (of_char c div 16), upperhex (of_char c mod 16)]
      else [c])"

text \<open>Modelled from the spec: \<open>url.QueryEscape\<close> (missing, standard library).\<close>

definition QueryEscape :: "string \<Rightarrow> string" where
  "QueryEscape s = concat (map escape_byte s)"

text \<open>
  Modelled from the spec: \<open>Values.Encode\<close> (missing, standard library): the keys in
  sorted order, for each value of a key the escaped key, \<open>=\<close> and the escaped value,
  with \<open>&\<close> before every pair but the first.
\<close>

definition Values_Encode :: "Values \<Rightarrow> string" where
  "Values_Encode v =
     foldl (\<lambda>buf k.
         foldl (\<lambda>buf val.
             (if buf = [] then buf else buf @ ''&'') @ QueryEscape k @ ''='' @ QueryEscape val)
           buf (case map_of v k of None \<Rightarrow> [] | Some vs \<Rightarrow> vs))
       [] (sort (map fst v))"

text \<open>
  \<open>WithParams\<close>: the loop visits the entries of the map \<open>params\<close> in the order of the
  list and stores each with \<open>Set\<close>; the encoded string goes into \<open>Params\<close>.
\<close>

definition WithParams :: "(string \<times> string) list \<Rightarrow> 'ck Option" where
  "WithParams params =
     (\<lambda>req.
        let urlParams = foldl (\<lambda>m (k, v). Values_Set k v m) [] params
        in Return (req\<lparr>Params := Values_Encode urlParams\<rparr>))"

text \<open>
  The decoding of a query string, by which the spec asks the pairs to round-trip, is
  \<open>url.ParseQuery\<close> of the standard library, missing from the sources as well: the
  string is cut at each \<open>&\<close>, a piece with a semicolon is an error, an empty piece is
  skipped, a piece is cut at its first \<open>=\<close>, both halves are unescaped, and the value
  is appended to the values of the key. The first error is kept, a semicolon error
  replaces it, and the remaining pieces are still decoded.
\<close>

text \<open>
  Modelled from the spec: the errors of the decoding (missing, standard library): a
  malformed escape, with its text, and a semicolon used as separator.
\<close>

datatype query_error = EscapeError string | InvalidSemicolon

text \<open>Modelled from the spec: \<open>ishex\<close> (missing, standard library).\<close>

definition ishex :: "char \<Rightarrow> bool" where
  "ishex c =
     (let n = (of_char c :: nat)
      in (48 \<le> n \<and> n \<le> 57) \<or> (97 \<le> n \<and> n \<le> 102) \<or> (65 \<le> n \<and> n \<le> 70))"

text \<open>Modelled from the spec: \<open>unhex\<close> (missing, standard library).\<close>

definition unhex :: "char \<Rightarrow> nat" where
  "unhex c =
     (let n = (of_char c :: nat)
      in if 48 \<le> n \<and> n \<le> 57 then n - 48
         else if 97 \<le> n \<and> n \<le> 102 then n - 97 + 10
         else if 65 \<le> n \<and> n \<le> 70 then n - 65 + 10
         else 0)"

text \<open>
  Modelled from the spec: the first pass of \<open>unescape\<close> (missing, standard library):
  the first \<open>%\<close> that is not followed by two hexadecimal digits, with up to two bytes
  after it, if there is one.
\<close>

fun badEscape :: "string \<Rightarrow> string option" where
  "badEscape [] = None"
| "badEscape (c # cs) =
     (if c = CHR ''%''
      then (case cs of
              a # b # rest \<Rightarrow>
                if ishex a \<and> ishex b then badEscape rest else Some (take 3 (c # cs))
            | _ \<Rightarrow> Some (take 3 (c # cs)))
      else badEscape cs)"

text \<open>
  Modelled from the spec: the second pass of \<open>unescape\<close> (missing, standard library),
  run on a string that passed the first: an escape becomes its byte, \<open>+\<close> a space.
\<close>

fun unescapeBytes :: "string \<Rightarrow> string" where
  "unescapeBytes [] = []"
| "unescapeBytes (c # cs) =
     (if c = CHR ''%''
      then (case cs of
              a # b # rest \<Rightarrow> char_of (unhex a * 16 + unhex b) # unescapeBytes rest
            | _ \<Rightarrow> [])
      else if c = CHR ''+'' then CHR '' '' # unescapeBytes cs
      else c # unescapeBytes cs)"

text \<open>Modelled from the spec: \<open>url.QueryUnescape\<close> (missing, standard library).\<close>

definition QueryUnescape :: "string \<Rightarrow> query_error + string" where
  "QueryUnescape s =
     (case badEscape s of
        Some esc \<Rightarrow> Inl (EscapeError esc)
      | None \<Rightarrow> Inr (unescapeBytes s))"

text \<open>
  Modelled from the spec: \<open>strings.Cut(s, sep)\<close> (missing, standard library) for a
  separator of one byte: the text before the first separator, the text after it, and
  whether there is one.
\<close>

fun Cut :: "string \<Rightarrow> char \<Rightarrow> string \<times> string \<times> bool" where
  "Cut [] sep = ([], [], False)"
| "Cut (c # cs) sep =
     (if c = sep then ([], cs, True)
      else (case Cut cs sep of (before, after, found) \<Rightarrow> (c # before, after, found)))"

text \<open>What is left after a cut is shorter than the string: the decoding loop ends.\<close>

lemma Cut_shorter:
  "Cut s sep = (before, after, found) \<Longrightarrow> s \<noteq> [] \<Longrightarrow> length after < length s"
proof (induction s arbitrary: before after found)
  case Nil
  then show ?case by simp
next
  case (Cons c cs)
  show ?case
  proof (cases "c = sep")
    case True
    with Cons.prems show ?thesis by auto
  next
    case False
    obtain b a f where cut: "Cut cs sep = (b, a, f)"
      by (cases "Cut cs sep") auto
    with False Cons.prems have after: "after = a" by simp
    show ?thesis
    proof (cases cs)
      case Nil
      with cut after show ?thesis by simp
    next
      case (Cons d ds)
      with Cons.IH [OF cut] after show ?thesis by simp
    qed
  qed
qed

text \<open>
  Modelled from the spec: the statement \<open>m[key] = append(m[key], value)\<close> of the
  decoding loop (missing, standard library).
\<close>

definition Values_Add :: "string \<Rightarrow> string \<Rightarrow> Values \<Rightarrow> Values" where
  "Values_Add key val m =
     AList.update key ((case map_of m key of None \<Rightarrow> [] | Some vs \<Rightarrow> vs) @ [val]) m"

text \<open>
  Modelled from the spec: the loop \<open>parseQuery\<close> (missing, standard library), from the
  values and the error so far.
\<close>

function parseQuery :: "Values \<Rightarrow> string \<Rightarrow> query_error option \<Rightarrow> Values \<times> query_error option" where
  "parseQuery m query err =
     (if query = [] then (m, err)
      else
        (case Cut query (CHR ''&'') of
           (key, rest, _) \<Rightarrow>
             if CHR '';'' \<in> set key then parseQuery m rest (Some InvalidSemicolon)
             else if key = [] then parseQuery m rest err
             else
               (case Cut key (CHR ''='') of
                  (k, val, _) \<Rightarrow>
                    (case QueryUnescape k of
                       Inl err1 \<Rightarrow> parseQuery m rest (if err = None then Some err1 else err)
                     | Inr k1 \<Rightarrow>
                         (case QueryUnescape val of
                            Inl err1 \<Rightarrow>
                              parseQuery m rest (if err = None then Some err1 else err)
                          | Inr val1 \<Rightarrow> parseQuery (Values_Add k1 val1 m) rest err)))))"
  by pat_completeness auto
termination
proof (relation "measure (\<lambda>(m, query, err). length query)")
  show "wf (measure (\<lambda>(m, query, err). length query))" by simp
qed (auto dest: Cut_shorter [OF sym])

declare parseQuery.simps [simp del]

text \<open>
  Modelled from the spec: \<open>url.ParseQuery\<close> (missing, standard library): the values
  decoded, and the error, if any.
\<close>

definition ParseQuery :: "string \<Rightarrow> Values \<times> query_error option" where
  "ParseQuery query = parseQuery [] query None"

section \<open>Executor (\<open>createRequest\<close>, \<open>HttpCaller\<close>)\<close>

text \<open>The struct \<open>url.URL\<close> of the standard library (user information left out).\<close>

record net_url =
  Scheme :: string
  Opaque :: string
  Host :: string
  Path :: string
  RawPath :: string
  OmitHost :: bool
  ForceQuery :: bool
  RawQuery :: string
  Fragment :: string
  RawFragment :: string

text \<open>
  An HTTP response as the decoders see it: a status code and a body, which is a
  one-shot stream. The stream holds the bytes still to be delivered, the error (if any)
  with which reading it ends instead of end-of-file, and whether it has been closed.
\<close>

record ReadCloser =
  pending :: string
  failure :: "string option"
  closed :: bool

record Response =
  StatusCode :: int
  Body :: ReadCloser

text \<open>
  What the executor takes from the Go standard library, as parameters: \<open>strings.ToUpper\<close>,
  \<open>url.ParseRequestURI\<close>, \<open>(*URL).String\<close>, \<open>http.NewRequest\<close> (method, URL and
  body), \<open>Header.Set\<close> and \<open>AddCookie\<close> on a request, and \<open>http.DefaultClient.Do\<close>:
  the answer of the network to a request. \<open>Inl\<close> carries the text of an error.
\<close>

record ('rq, 'ck) net =
  ToUpper :: "string \<Rightarrow> string"
  ParseRequestURI :: "string \<Rightarrow> string + net_url"
  URL_String :: "net_url \<Rightarrow> string"
  NewRequest :: "string \<Rightarrow> string \<Rightarrow> string \<Rightarrow> string + 'rq"
  Header_Set :: "string \<Rightarrow> string \<Rightarrow> 'rq \<Rightarrow> 'rq"
  AddCookie :: "'ck \<Rightarrow> 'rq \<Rightarrow> 'rq"
  Do :: "'rq \<Rightarrow> string + Response"

text \<open>
  \<open>createRequest\<close>, lines 84 to 91 of the source: the URL string is parsed, a parse
  error panics, and the query component of the parsed URL is overwritten with
  \<open>Params\<close>.
\<close>

definition parsedURL :: "('rq, 'ck) net \<Rightarrow> 'ck HttpRequests \<Rightarrow> net_url outcome" where
  "parsedURL lib requestIns =
     (case ParseRequestURI lib (URL requestIns) of
        Inl err \<Rightarrow>
          Panic (PanicString (''parse url requestUrl failed, err:'' @ err @ [CHR 0x0A]))
      | Inr urlObj \<Rightarrow> Return (urlObj\<lparr>RawQuery := Params requestIns\<rparr>))"

text \<open>The loop attaching the cookies; \<open>AddCookie\<close> reads through the pointer.\<close>

fun addCookies :: "('rq, 'ck) net \<Rightarrow> 'ck option list \<Rightarrow> 'rq \<Rightarrow> 'rq outcome" where
  "addCookies lib [] req = Return req"
| "addCookies lib (None # vs) req = Panic NilDereference"
| "addCookies lib (Some v # vs) req = addCookies lib vs (AddCookie lib v req)"

text \<open>
  \<open>createRequest\<close>, lines 84 to 114 of the source: after the step above the outbound
  request is constructed from the method, the string of the URL and the body, its
  headers are set one by one in the order in which the map is visited, and the cookies
  are attached. When \<open>http.NewRequest\<close> fails, a line is printed and the function
  returns nil: the result is \<open>None\<close>. The first component is what was printed on
  standard output.
\<close>

definition outboundRequest ::
  "('rq, 'ck) net \<Rightarrow> 'ck HttpRequests \<Rightarrow> string list \<times> 'rq option outcome" where
  "outboundRequest lib requestIns =
     (case parsedURL lib requestIns of
        Panic p \<Rightarrow> ([], Panic p)
      | Return urlObj \<Rightarrow>
          (case NewRequest lib (Method requestIns) (URL_String lib urlObj) (PostBody requestIns) of
             Inl err \<Rightarrow> ([''create request instance failed''], Return None)
           | Inr req \<Rightarrow>
               let req1 = foldl (\<lambda>rq (key, val). Header_Set lib key val rq) req (Headers requestIns)
               in (case addCookies lib (Cookies requestIns) req1 of
                     Panic p \<Rightarrow> ([], Panic p)
                   | Return req2 \<Rightarrow> ([], Return (Some req2)))))"

text \<open>
  \<open>createRequest\<close>, the whole function: the request constructed above is sent; a
  transport error panics, otherwise the response is returned.
\<close>

definition createRequest ::
  "('rq, 'ck) net \<Rightarrow> 'ck HttpRequests \<Rightarrow> string list \<times> Response option outcome" where
  "createRequest lib requestIns =
     (case outboundRequest lib requestIns of
        (out, Panic p) \<Rightarrow> (out, Panic p)
      | (out, Return None) \<Rightarrow> (out, Return None)
      | (out, Return (Some req)) \<Rightarrow>
          (case Do lib req of
             Inl err \<Rightarrow> (out, Panic (PanicString (''send request error:'' @ err @ [CHR 0x0A])))
           | Inr response \<Rightarrow> (out, Return (Some response))))"

text \<open>The descriptor that \<open>HttpCaller\<close> starts from, before any option is applied.\<close>

definition RequestIns :: "('rq, 'ck) net \<Rightarrow> string \<Rightarrow> string \<Rightarrow> 'ck HttpRequests" where
  "RequestIns lib method url =
     \<lparr>Method = ToUpper lib method, URL = url,
      Headers = [(''Content-Type'', ''application/json'')], Cookies = [],
      Timeout = 3 * Second, PostBody = '''', Params = ''''\<rparr>"

text \<open>The loop over the options, in the order supplied; a panic ends it.\<close>

fun applyOptions :: "'ck Option list \<Rightarrow> 'ck HttpRequests \<Rightarrow> 'ck HttpRequests outcome" where
  "applyOptions [] req = Return req"
| "applyOptions (opt # options) req =
     (case opt req of Panic p \<Rightarrow> Panic p | Return req' \<Rightarrow> applyOptions options req')"

definition HttpCaller ::
  "('rq, 'ck) net \<Rightarrow> string \<Rightarrow> string \<Rightarrow> 'ck Option list \<Rightarrow> string list \<times> Response option outcome" where
  "HttpCaller lib method url options =
     (case applyOptions options (RequestIns lib method url) of
        Panic p \<Rightarrow> ([], Panic p)
      | Return req \<Rightarrow> createRequest lib req)"

text \<open>
  The request that a call of \<open>HttpCaller\<close> hands to the client: the same options, the
  same descriptor, stopping before the request is sent.
\<close>

definition HttpCaller_outbound ::
  "('rq, 'ck) net \<Rightarrow> string \<Rightarrow> string \<Rightarrow> 'ck Option list \<Rightarrow> string list \<times> 'rq option outcome" where
  "HttpCaller_outbound lib method url options =
     (case applyOptions options (RequestIns lib method url) of
        Panic p \<Rightarrow> ([], Panic p)
      | Return req \<Rightarrow> outboundRequest lib req)"

section \<open>Response decoder\<close>

text \<open>
  \<open>ioutil.ReadAll\<close> on the body: the bytes up to end-of-file, or the error that ends
  the stream; reading a closed body is an error. Either way the stream is consumed.
  \<open>Close\<close> marks the body closed.
\<close>

definition ReadAll :: "ReadCloser \<Rightarrow> (string + string) \<times> ReadCloser" where
  "ReadAll rc =
     (if closed rc then (Inl ''http: read on closed response body'', rc)
      else case failure rc of
             Some err \<Rightarrow> (Inl err, rc\<lparr>pending := ''''\<rparr>)
           | None \<Rightarrow> (Inr (pending rc), rc\<lparr>pending := ''''\<rparr>))"

definition Close :: "ReadCloser \<Rightarrow> ReadCloser" where
  "Close rc = rc\<lparr>closed := True\<rparr>"

text \<open>
  The errors that the decoder builds with \<open>fmt.Errorf\<close>, one constructor for each
  format string, holding the value that is formatted into it.
\<close>

datatype error =
    StatusNot200 int            \<comment> \<open>request status code not 200, actually status code is ...\<close>
  | ReadBodyFailed string       \<comment> \<open>read from response.Body failed: ...\<close>
  | ResponseToBytesError error  \<comment> \<open>response to bytes error: ...\<close>
  | UnMarshalError string       \<comment> \<open>unMarshal response bytes slice error: ...\<close>

text \<open>The constant \<open>http.StatusOK\<close>.\<close>

definition StatusOK :: int where
  "StatusOK = 200"

text \<open>
  \<open>responseToBytes\<close>. The response is a pointer, \<open>None\<close> when nil; the deferred
  \<open>Close\<close> runs on every way out, and its receiver \<open>responseIns.Body\<close> is evaluated
  first, which panics on a nil pointer. The result holds the response as the call
  leaves it.
\<close>

definition responseToBytes :: "Response option \<Rightarrow> ((error + string) \<times> Response) outcome" where
  "responseToBytes responseIns =
     (case responseIns of
        None \<Rightarrow> Panic NilDereference
      | Some resp \<Rightarrow>
          if StatusCode resp \<noteq> StatusOK
          then Return (Inl (StatusNot200 (StatusCode resp)), resp\<lparr>Body := Close (Body resp)\<rparr>)
          else (case ReadAll (Body resp) of
                  (Inl err, body') \<Rightarrow>
                    Return (Inl (ReadBodyFailed err), resp\<lparr>Body := Close body'\<rparr>)
                | (Inr bodyRet, body') \<Rightarrow>
                    Return (Inr bodyRet, resp\<lparr>Body := Close body'\<rparr>)))"

text \<open>
  \<open>FastJsonUnMarshal\<close> hands over to the \<open>Unmarshal\<close> of the configured JSON library,
  a parameter: from the bytes and the target it gives the error, if any, and the target
  as it is afterwards.
\<close>

definition FastJsonUnMarshal ::
  "(string \<Rightarrow> 't \<Rightarrow> string option \<times> 't) \<Rightarrow> string \<Rightarrow> 't \<Rightarrow> string option \<times> 't" where
  "FastJsonUnMarshal fastJson_Unmarshal bytes v = fastJson_Unmarshal bytes v"

text \<open>
  \<open>ResponseToStruct\<close>: the returned error (\<open>None\<close> is nil), the target and the
  response as the call leaves them.
\<close>

definition ResponseToStruct ::
  "(string \<Rightarrow> 't \<Rightarrow> string option \<times> 't) \<Rightarrow> Response option \<Rightarrow> 't
     \<Rightarrow> (error option \<times> 't \<times> Response) outcome" where
  "ResponseToStruct fastJson_Unmarshal responseIns v =
     (case responseToBytes responseIns of
        Panic p \<Rightarrow> Panic p
      | Return (Inl err, resp') \<Rightarrow> Return (Some (ResponseToBytesError err), v, resp')
      | Return (Inr responseBytesSlice, resp') \<Rightarrow>
          (case FastJsonUnMarshal fastJson_Unmarshal responseBytesSlice v of
             (Some err, v') \<Rightarrow> Return (Some (UnMarshalError err), v', resp')
           | (None, v') \<Rightarrow> Return (None, v', resp')))"

text \<open>
  \<open>ResponseToMap\<close>. The streaming decoder \<open>json.NewDecoder(body).Decode(&ret)\<close> of the
  standard library is a parameter: from the body it gives the value of \<open>ret\<close>
  afterwards (\<open>None\<close> is the nil map \<open>ret\<close> starts as), the error, if any, and the
  body as the decoder leaves it.
\<close>

definition ResponseToMap ::
  "(ReadCloser \<Rightarrow> 'm option \<times> 'e option \<times> ReadCloser) \<Rightarrow> Response option
     \<Rightarrow> ('m option \<times> Response) outcome" where
  "ResponseToMap json_Decode responseIns =
     (case responseIns of
        None \<Rightarrow> Panic NilDereference
      | Some resp \<Rightarrow>
          (case json_Decode (Body resp) of
             (ret, err, body') \<Rightarrow>
               if err \<noteq> None then Return (None, resp\<lparr>Body := Close body'\<rparr>)
               else Return (ret, resp\<lparr>Body := Close body'\<rparr>)))"

section \<open>The streaming JSON decoder behind \<open>ResponseToMap\<close>\<close>

text \<open>
  \<open>ResponseToMap\<close> decodes with \<open>json.NewDecoder(body).Decode(&ret)\<close>. The decoder
  belongs to the package \<open>encoding/json\<close> of the Go standard library, whose code is
  missing from the sources of the repository. The spec speaks of a direct streaming JSON
  decode into a generic key-value mapping; the definitions marked below follow what
  \<open>encoding/json\<close> does: it reads one JSON value from the front of the stream and
  stores it into the map.
\<close>

text \<open>
  Modelled from the spec: a decoded JSON value (missing, standard library). The members
  of an object are kept in the order of the text, a string and a number as the text
  between its delimiters: unquoting, the merging of repeated keys and the conversion of
  a number to \<open>float64\<close> are not modelled.
\<close>

datatype json =
    JNull
  | JBool bool
  | JNumber string
  | JString string
  | JArray "json list"
  | JObject "(string \<times> json) list"

text \<open>
  Modelled from the spec: the white space of JSON (missing, standard library): space,
  tab, carriage return and line feed.
\<close>

definition isSpace :: "char \<Rightarrow> bool" where
  "isSpace c = (c \<in> set [CHR '' '', CHR 0x09, CHR 0x0D, CHR 0x0A])"

text \<open>Modelled from the spec: skipping white space (missing, standard library).\<close>

definition skipSpace :: "string \<Rightarrow> string" where
  "skipSpace s = dropWhile isSpace s"

text \<open>Modelled from the spec: a decimal digit (missing, standard library).\<close>

definition isDigit :: "char \<Rightarrow> bool" where
  "isDigit c = (let n = (of_char c :: nat) in 48 \<le> n \<and> n \<le> 57)"

text \<open>
  Modelled from the spec: a JSON string from behind its opening quote (missing, standard
  library): the text up to the closing quote and what follows it. A backslash is
  followed by a double quote, a backslash, a slash, one of the letters b, f, n, r, t, or
  by the letter u and four hexadecimal digits; a byte below 32 is not allowed.
  \<open>CHR 0x22\<close> is the double quote, \<open>CHR 0x5C\<close> the backslash.
\<close>

fun scanString :: "string \<Rightarrow> (string \<times> string) option" where
  "scanString [] = None"
| "scanString (c # cs) =
     (if c = CHR 0x22 then Some ([], cs)
      else if c = CHR 0x5C then
        (case cs of
           [] \<Rightarrow> None
         | e # cs' \<Rightarrow>
             if e \<in> set [CHR 0x22, CHR 0x5C, CHR ''/'', CHR ''b'', CHR ''f'', CHR ''n'', CHR ''r'', CHR ''t'']
               then map_option (\<lambda>(raw, rest). (c # e # raw, rest)) (scanString cs')
             else if e = CHR ''u'' then
               (case cs' of
                  h1 # h2 # h3 # h4 # cs'' \<Rightarrow>
                    if ishex h1 \<and> ishex h2 \<and> ishex h3 \<and> ishex h4
                      then map_option (\<lambda>(raw, rest). (c # e # h1 # h2 # h3 # h4 # raw, rest))
                             (scanString cs'')
                    else None
                | _ \<Rightarrow> None)
             else None)
      else if (of_char c :: nat) < 32 then None
      else map_option (\<lambda>(raw, rest). (c # raw, rest)) (scanString cs))"

text \<open>
  Modelled from the spec: the parts of a JSON number (missing, standard library): the
  integer part is \<open>0\<close> or starts with a digit from 1 to 9, a fraction is a point and
  at least one digit, an exponent is \<open>e\<close> or \<open>E\<close>, an optional sign and at least one
  digit. Each gives the text it read and what follows it.
\<close>

definition scanInteger :: "string \<Rightarrow> (string \<times> string) option" where
  "scanInteger s =
     (case s of
        [] \<Rightarrow> None
      | d # ds \<Rightarrow>
          if d = CHR ''0'' then Some ([d], ds)
          else if isDigit d then Some (d # takeWhile isDigit ds, dropWhile isDigit ds)
          else None)"

definition scanFraction :: "string \<Rightarrow> (string \<times> string) option" where
  "scanFraction s =
     (case s of
        [] \<Rightarrow> Some ([], s)
      | c # cs \<Rightarrow>
          if c = CHR ''.'' then
            (if takeWhile isDigit cs = [] then None
             else Some (c # takeWhile isDigit cs, dropWhile isDigit cs))
          else Some ([], s))"

definition scanSign :: "string \<Rightarrow> string \<times> string" where
  "scanSign s =
     (case s of
        [] \<Rightarrow> ([], s)
      | c # cs \<Rightarrow> if c = CHR ''+'' \<or> c = CHR ''-'' then ([c], cs) else ([], s))"

definition scanExponent :: "string \<Rightarrow> (string \<times> string) option" where
  "scanExponent s =
     (case s of
        [] \<Rightarrow> Some ([], s)
      | c # cs \<Rightarrow>
          if c = CHR ''e'' \<or> c = CHR ''E'' then
            (case scanSign cs of
               (sign, ds) \<Rightarrow>
                 if takeWhile isDigit ds = [] then None
                 else Some (c # sign @ takeWhile isDigit ds, dropWhile isDigit ds))
          else Some ([], s))"

text \<open>
  Modelled from the spec: a JSON number (missing, standard library): an optional minus
  sign, the integer part, an optional fraction and an optional exponent.
\<close>

definition scanNumber :: "string \<Rightarrow> (string \<times> string) option" where
  "scanNumber s =
     (case (case s of [] \<Rightarrow> ([], s) | c # cs \<Rightarrow> if c = CHR ''-'' then ([c], cs) else ([], s)) of
        (neg, s1) \<Rightarrow>
          (case scanInteger s1 of
             None \<Rightarrow> None
           | Some (ip, s2) \<Rightarrow>
               (case scanFraction s2 of
                  None \<Rightarrow> None
                | Some (fr, s3) \<Rightarrow>
                    (case scanExponent s3 of
                       None \<Rightarrow> None
                     | Some (ex, s4) \<Rightarrow> Some (neg @ ip @ fr @ ex, s4)))))"

text \<open>
  Modelled from the spec: the three literal names of JSON (missing, standard library).
\<close>

definition scanLiteral :: "string \<Rightarrow> (json \<times> string) option" where
  "scanLiteral s =
     (if prefix ''true'' s then Some (JBool True, drop 4 s)
      else if prefix ''false'' s then Some (JBool False, drop 5 s)
      else if prefix ''null'' s then Some (JNull, drop 4 s)
      else None)"

text \<open>What is left behind the first byte after white space is shorter than the text.\<close>

lemma skipSpace_shorter: "skipSpace s = c # cs \<Longrightarrow> length cs < length s"
  using length_dropWhile_le [of isSpace s] by (simp add: skipSpace_def)

text \<open>
  Modelled from the spec: the first JSON value of a text (missing, standard library),
  with what follows it; \<open>None\<close> when the text does not begin, after white space, with
  a complete well-formed value. \<open>parseElements\<close> reads the elements of an array up to
  its closing bracket, \<open>parseMembers\<close> the members of an object up to its closing
  brace; after a comma another element or member must follow. The comparisons of
  lengths are there for the recursion to end; they never fail (lemmas
  \<open>parseElements_unguarded\<close> and \<open>parseMembers_unguarded\<close> below).
\<close>

function parseValue :: "string \<Rightarrow> (json \<times> string) option"
  and parseElements :: "string \<Rightarrow> (json list \<times> string) option"
  and parseMembers :: "string \<Rightarrow> ((string \<times> json) list \<times> string) option"
where
  "parseValue s =
     (case skipSpace s of
        [] \<Rightarrow> None
      | c # cs \<Rightarrow>
          if c = CHR ''{'' then
            (case skipSpace cs of
               [] \<Rightarrow> None
             | d # ds \<Rightarrow>
                 if d = CHR ''}'' then Some (JObject [], ds)
                 else map_option (\<lambda>(ms, rest). (JObject ms, rest)) (parseMembers cs))
          else if c = CHR ''['' then
            (case skipSpace cs of
               [] \<Rightarrow> None
             | d # ds \<Rightarrow>
                 if d = CHR '']'' then Some (JArray [], ds)
                 else map_option (\<lambda>(vs, rest). (JArray vs, rest)) (parseElements cs))
          else if c = CHR 0x22 then
            map_option (\<lambda>(raw, rest). (JString raw, rest)) (scanString cs)
          else if c = CHR ''-'' \<or> isDigit c then
            map_option (\<lambda>(lit, rest). (JNumber lit, rest)) (scanNumber (c # cs))
          else scanLiteral (c # cs))"
| "parseElements s =
     (case parseValue s of
        None \<Rightarrow> None
      | Some (v, r) \<Rightarrow>
          (case skipSpace r of
             [] \<Rightarrow> None
           | c # r' \<Rightarrow>
               if c = CHR '','' then
                 (if length r' < length s then
                    (case parseElements r' of
                       None \<Rightarrow> None
                     | Some (vs, rest) \<Rightarrow> Some (v # vs, rest))
                  else None)
               else if c = CHR '']'' then Some ([v], r')
               else None))"
| "parseMembers s =
     (case skipSpace s of
        [] \<Rightarrow> None
      | q # s1 \<Rightarrow>
          if q = CHR 0x22 then
            (case scanString s1 of
               None \<Rightarrow> None
             | Some (key, s2) \<Rightarrow>
                 (case skipSpace s2 of
                    [] \<Rightarrow> None
                  | c # s3 \<Rightarrow>
                      if c = CHR '':'' \<and> length s3 < length s then
                        (case parseValue s3 of
                           None \<Rightarrow> None
                         | Some (v, r) \<Rightarrow>
                             (case skipSpace r of
                                [] \<Rightarrow> None
                              | c' # r' \<Rightarrow>
                                  if c' = CHR '','' then
                                    (if length r' < length s then
                                       (case parseMembers r' of
                                          None \<Rightarrow> None
                                        | Some (ms, rest) \<Rightarrow> Some ((key, v) # ms, rest))
                                     else None)
                                  else if c' = CHR ''}'' then Some ([(key, v)], r')
                                  else None))
                      else None))
          else None)"
  by pat_completeness auto
termination
proof (relation "measure (\<lambda>x. case x of
           Inl s \<Rightarrow> 2 * length s
         | Inr (Inl s) \<Rightarrow> 2 * length s + 1
         | Inr (Inr s) \<Rightarrow> 2 * length s + 1)")
  show "wf (measure (\<lambda>x. case x of
           Inl s \<Rightarrow> 2 * length s
         | Inr (Inl s) \<Rightarrow> 2 * length s + 1
         | Inr (Inr s) \<Rightarrow> 2 * length s + 1))" by simp
qed (auto dest: skipSpace_shorter)

declare parseValue.simps [simp del] parseElements.simps [simp del] parseMembers.simps [simp del]

text \<open>
  Modelled from the spec: the texts of the numbers in a value (missing, standard
  library); each of them is converted to \<open>float64\<close> when the value is stored.
\<close>

fun numbers :: "json \<Rightarrow> string list" where
  "numbers (JNumber lit) = [lit]"
| "numbers (JArray vs) = concat (map numbers vs)"
| "numbers (JObject ms) = concat (map (\<lambda>(k, v). numbers v) ms)"
| "numbers v = []"

text \<open>
  Modelled from the spec: the errors of the decoder (missing, standard library), without
  their text. \<open>NoValue\<close>: the stream does not hold a complete well-formed JSON value at
  its front (a syntax error, the end of the stream or its read error comes first).
  \<open>UnmarshalTypeError\<close>: the value cannot be stored into the map (it is neither an
  object nor \<open>null\<close>, or a number in it is out of the range of \<open>float64\<close>).
\<close>

datatype json_error = NoValue | UnmarshalTypeError

text \<open>
  Modelled from the spec: an array or an object (missing, standard library). The decoder
  knows that such a value is complete at its closing bracket; any other value is
  complete only at the next byte or at the end of the stream.
\<close>

definition isContainer :: "json \<Rightarrow> bool" where
  "isContainer v = (case v of JArray vs \<Rightarrow> True | JObject ms \<Rightarrow> True | _ \<Rightarrow> False)"

text \<open>
  Modelled from the spec: \<open>json.NewDecoder(body).Decode(&ret)\<close> for a map \<open>ret\<close> that
  starts as nil (missing, standard library). The decoder reads the first JSON value of
  the stream and does not look at what follows it. \<open>null\<close> leaves \<open>ret\<close> nil, an
  object makes it a map, any other value is an error; a number out of range is an error
  that leaves the map partly filled. Whether the text of a number converts to
  \<open>float64\<close> in range is the parameter \<open>float64_ok\<close>. What the decoder has taken
  from the stream is gone; the rest is lost when the body is closed.
\<close>

definition Decoder_Decode ::
  "(string \<Rightarrow> bool) \<Rightarrow> ReadCloser
     \<Rightarrow> (string \<times> json) list option \<times> json_error option \<times> ReadCloser" where
  "Decoder_Decode float64_ok body =
     (if closed body then (None, Some NoValue, body)
      else
        (case parseValue (pending body) of
           None \<Rightarrow> (None, Some NoValue, body\<lparr>pending := []\<rparr>)
         | Some (v, rest) \<Rightarrow>
             if \<not> isContainer v \<and> rest = [] \<and> failure body \<noteq> None
               then (None, Some NoValue, body\<lparr>pending := []\<rparr>)
             else
               (case v of
                  JNull \<Rightarrow> (None, None, body\<lparr>pending := []\<rparr>)
                | JObject ms \<Rightarrow>
                    (Some ms,
                     if list_all float64_ok (numbers v) then None else Some UnmarshalTypeError,
                     body\<lparr>pending := []\<rparr>)
                | _ \<Rightarrow> (None, Some UnmarshalTypeError, body\<lparr>pending := []\<rparr>))))"

section \<open>A stand-in for the standard library, for concrete runs\<close>

text \<open>
  A small library to run the executor and the decoders on concrete inputs: a request is
  a record of what was put into it, a URL is a path and a query, a method with a space
  is refused, the host behind \<open>/down\<close> does not answer, a target is a number and a
  mapping is a list of pairs. The decoder \<open>demo_Decode\<close> knows the empty object only;
  it serves where the response is nil and no decoder is reached.
\<close>

record demo_request =
  req_method :: string
  req_url :: string
  req_body :: string
  req_header :: "(string \<times> string) list"
  req_cookies :: "(string \<times> string) list"

definition demo_upper :: "char \<Rightarrow> char" where
  "demo_upper c =
     (let n = (of_char c :: nat) in if 97 \<le> n \<and> n \<le> 122 then char_of (n - 32) else c)"

definition demo_parse :: "string \<Rightarrow> string + net_url" where
  "demo_parse s =
     (if s = [] then Inl ''empty url''
      else Inr \<lparr>Scheme = [], Opaque = [], Host = [],
                Path = takeWhile (\<lambda>c. c \<noteq> CHR ''?'') s, RawPath = [],
                OmitHost = False, ForceQuery = False,
                RawQuery = drop 1 (dropWhile (\<lambda>c. c \<noteq> CHR ''?'') s), Fragment = [],
                RawFragment = []\<rparr>)"

definition demo_string :: "net_url \<Rightarrow> string" where
  "demo_string u = Path u @ (if RawQuery u = [] then [] else CHR ''?'' # RawQuery u)"

definition demo_NewRequest :: "string \<Rightarrow> string \<Rightarrow> string \<Rightarrow> string + demo_request" where
  "demo_NewRequest m u b =
     (if CHR '' '' \<in> set m then Inl ''net/http: invalid method''
      else Inr \<lparr>req_method = m, req_url = u, req_body = b, req_header = [], req_cookies = []\<rparr>)"

definition demo_Do :: "demo_request \<Rightarrow> string + Response" where
  "demo_Do rq =
     (if req_url rq = ''/down'' then Inl ''connection refused''
      else Inr \<lparr>StatusCode = 200, Body = \<lparr>pending = ''1'', failure = None, closed = False\<rparr>\<rparr>)"

definition demo_lib :: "(demo_request, string \<times> string) net" where
  "demo_lib =
     \<lparr>ToUpper = map demo_upper, ParseRequestURI = demo_parse, URL_String = demo_string,
      NewRequest = demo_NewRequest,
      Header_Set = (\<lambda>key val rq. rq\<lparr>req_header := AList.update key val (req_header rq)\<rparr>),
      AddCookie = (\<lambda>c rq. rq\<lparr>req_cookies := req_cookies rq @ [c]\<rparr>),
      Do = demo_Do\<rparr>"

definition demo_descriptor :: "string \<Rightarrow> string \<Rightarrow> (string \<times> string) HttpRequests" where
  "demo_descriptor method url =
     \<lparr>Method = method, URL = url, Headers = [(''Accept'', ''*/*'')], Cookies = [],
      Timeout = 3 * Second, PostBody = '''', Params = ''''\<rparr>"

definition demo_Unmarshal :: "string \<Rightarrow> nat \<Rightarrow> string option \<times> nat" where
  "demo_Unmarshal bytes v =
     (if bytes = ''1'' then (None, 1) else (Some ''invalid character'', v))"

definition demo_Decode :: "ReadCloser \<Rightarrow> (string \<times> string) list option \<times> string option \<times> ReadCloser" where
  "demo_Decode body =
     (if pending body = ''{}'' then (Some [], None, body\<lparr>pending := []\<rparr>)
      else (None, Some ''invalid character'', body\<lparr>pending := []\<rparr>))"

definition demo_Marshal :: "nat option \<Rightarrow> string + string" where
  "demo_Marshal d = (case d of None \<Rightarrow> Inl ''json: unsupported value'' | Some n \<Rightarrow> Inr (digits n))"

section \<open>Notions used in the statements\<close>

text \<open>
  An option is blind to the timeout when it neither reads nor writes the field
  \<open>Timeout\<close>: run on a descriptor with another timeout, it does the same and leaves
  that timeout in place.
\<close>

definition timeout_blind :: "'ck Option \<Rightarrow> bool" where
  "timeout_blind opt \<longleftrightarrow>
     (\<forall>req t. opt (req\<lparr>Timeout := t\<rparr>) = map_outcome (\<lambda>req'. req'\<lparr>Timeout := t\<rparr>) (opt req))"

text \<open>
  Two lists of options differ only in the timeout supplied through \<open>WithTimeout\<close>:
  the options blind to the timeout are the same, in the same order, and any
  \<open>WithTimeout\<close> may be changed to another duration, left out, or put in.
\<close>

inductive timeout_variant :: "'ck Option list \<Rightarrow> 'ck Option list \<Rightarrow> bool" where
  tv_Nil: "timeout_variant [] []"
| tv_same: "timeout_blind opt \<Longrightarrow> timeout_variant xs ys \<Longrightarrow> timeout_variant (opt # xs) (opt # ys)"
| tv_change: "timeout_variant xs ys \<Longrightarrow> timeout_variant (WithTimeout t1 # xs) (WithTimeout t2 # ys)"
| tv_left: "timeout_variant xs ys \<Longrightarrow> timeout_variant (WithTimeout t # xs) ys"
| tv_right: "timeout_variant xs ys \<Longrightarrow> timeout_variant xs (WithTimeout t # ys)"

text \<open>Two descriptors that agree on every field but \<open>Timeout\<close>.\<close>

definition same_but_Timeout :: "'ck HttpRequests \<Rightarrow> 'ck HttpRequests \<Rightarrow> bool" where
  "same_but_Timeout r1 r2 \<longleftrightarrow> r2 = r1\<lparr>Timeout := Timeout r2\<rparr>"

text \<open>
  A body that is a JSON object decodable into a mapping: the text is one JSON object,
  with nothing but white space after it, and its numbers are in range.
\<close>

definition JSON_object_body :: "(string \<Rightarrow> bool) \<Rightarrow> string \<Rightarrow> bool" where
  "JSON_object_body float64_ok s =
     (case parseValue s of
        Some (JObject ms, rest) \<Rightarrow>
          skipSpace rest = [] \<and> list_all float64_ok (numbers (JObject ms))
      | _ \<Rightarrow> False)"

text \<open>
  A body that begins with such an object: after white space comes a JSON object whose
  numbers are in range, followed by any bytes.
\<close>

definition begins_with_object :: "(string \<Rightarrow> bool) \<Rightarrow> string \<Rightarrow> bool" where
  "begins_with_object float64_ok s =
     (case parseValue s of
        Some (JObject ms, rest) \<Rightarrow> list_all float64_ok (numbers (JObject ms))
      | _ \<Rightarrow> False)"

text \<open>
  One encoded pair \<open>key=value\<close>, pairs joined by ampersands, the pair that a mapping
  holds for a key, and a pair as an entry of \<open>Values\<close> with its single value.
\<close>

definition encodedPair :: "string \<times> string \<Rightarrow> string" where
  "encodedPair p = QueryEscape (fst p) @ ''='' @ QueryEscape (snd p)"

fun joinPairs :: "(string \<times> string) list \<Rightarrow> string" where
  "joinPairs [] = []"
| "joinPairs [p] = encodedPair p"
| "joinPairs (p # q # ps) = encodedPair p @ ''&'' @ joinPairs (q # ps)"

definition pairOf :: "(string \<times> string) list \<Rightarrow> string \<Rightarrow> string \<times> string" where
  "pairOf ps k = (k, the (map_of ps k))"

abbreviation single :: "string \<times> string \<Rightarrow> string \<times> string list" where
  "single \<equiv> \<lambda>(k, v). (k, [v])"

section \<open>Properties of the URL assembler\<close>

lemma Contains_iff_sublist: "Contains s substr \<longleftrightarrow> sublist substr s"
  by (induction s) (auto simp: sublist_Cons_right)

lemma byte_to_string_slash: "byte_to_string c = ''/'' \<longleftrightarrow> c = CHR ''/''"
  by (auto simp: byte_to_string_def Let_def)

lemma foldl_append_segments:
  "foldl (\<lambda>acc v. acc @ ''/'' @ f v) acc0 ps = acc0 @ concat (map (\<lambda>v. ''/'' @ f v) ps)"
  by (induction ps arbitrary: acc0) simp_all

text \<open>
  Every non-empty \<open>apiUrl\<close> that does not start with a slash, or that contains the
  host, is answered with the empty string.
\<close>

lemma MontageUrl_rejects:
  assumes "apiUrl \<noteq> []" and "\<not> prefix ''/'' apiUrl \<or> sublist host apiUrl"
  shows "MontageUrl fmt_v host apiUrl pathParam = Return ''''"
  using assms
  by (cases apiUrl) (auto simp: MontageUrl_def byte_to_string_slash Contains_iff_sublist)

text \<open>
  Claim C1 says that every \<open>apiUrl\<close> that does not start with a slash gives the empty
  string, the empty \<open>apiUrl\<close> included. On the empty \<open>apiUrl\<close> the guard reads
  \<open>apiUrl[0]\<close> and the call panics instead of returning.
\<close>

theorem MontageUrl_empty_apiUrl_panics:
  "MontageUrl fmt_v host [] pathParam = Panic (IndexOutOfRange 0 0)"
  by (simp add: MontageUrl_def)

theorem MontageUrl_empty_apiUrl_panics_witness:
  "MontageUrl Sprint_v ''example.com'' [] [] = Panic (IndexOutOfRange 0 0) \<and>
   MontageUrl Sprint_v ''example.com'' [] [] \<noteq> Return []"
  using MontageUrl_empty_apiUrl_panics [of Sprint_v "''example.com''" "[]"] by simp

text \<open>
  Claim C2: for a path that starts with a slash and does not contain the host, the call
  without segments returns \<open>https://\<close>, the host and the path; with segments it
  returns that string followed by a slash and the rendered segment, once for each
  segment, in the order given.
\<close>

theorem MontageUrl_assembles:
  assumes "prefix ''/'' path" and "\<not> sublist host path"
  shows "MontageUrl fmt_v host path [] = Return (''https://'' @ host @ path) \<and>
         MontageUrl fmt_v host path segs =
           Return ((''https://'' @ host @ path) @ concat (map (\<lambda>seg. ''/'' @ fmt_v seg) segs))"
proof -
  from assms(1) obtain rest where path: "path = CHR ''/'' # rest"
    by (cases path) (auto simp: prefix_def)
  have guard: "\<not> (byte_to_string (CHR ''/'') \<noteq> ''/'' \<or> Contains path host)"
    using assms(2) by (simp add: byte_to_string_slash Contains_iff_sublist)
  have loop: "foldl (\<lambda>acc v. acc @ ''/'' @ fmt_v v) [] segs = concat (map (\<lambda>seg. ''/'' @ fmt_v seg) segs)"
    using foldl_append_segments [of fmt_v "[]" segs] by simp
  from path guard show ?thesis
    unfolding MontageUrl_def Let_def loop by (cases segs) simp_all
qed

theorem MontageUrl_assembles_witness:
  "prefix ''/'' ''/api/user'' \<and> \<not> sublist ''example.com'' ''/api/user'' \<and>
   MontageUrl Sprint_v ''example.com'' ''/api/user'' [] = Return ''https://example.com/api/user'' \<and>
   MontageUrl Sprint_v ''example.com'' ''/api/user'' [SegString ''334'', SegNat 456] =
     Return ''https://example.com/api/user/334/456''"
proof -
  have h1: "prefix ''/'' ''/api/user''" by simp
  have h2: "\<not> sublist ''example.com'' ''/api/user''"
    by (simp add: Contains_iff_sublist [symmetric])
  have d: "digits 456 = ''456''" by code_simp
  show ?thesis
    using MontageUrl_assembles [OF h1 h2, of Sprint_v "[SegString ''334'', SegNat 456]"] h1 h2
    by (simp add: d)
qed

section \<open>Properties of the options\<close>

text \<open>
  Claim C5: \<open>WithHeaders h1\<close> and then \<open>WithHeaders h2\<close> leave the header mapping
  of the descriptor equal to \<open>h2\<close>: on any descriptor, and on the one \<open>HttpCaller\<close>
  starts from, where the default \<open>Content-Type\<close> entry is gone as well.
\<close>

theorem WithHeaders_twice_replaces:
  "applyOptions [WithHeaders h1, WithHeaders h2] req = Return (req\<lparr>Headers := h2\<rparr>) \<and>
   applyOptions [WithHeaders h1, WithHeaders h2] (RequestIns lib verb url) =
     Return \<lparr>Method = ToUpper lib verb, URL = url, Headers = h2, Cookies = [],
             Timeout = 3 * Second, PostBody = '''', Params = ''''\<rparr> \<and>
   HttpCaller lib verb url [WithHeaders h1, WithHeaders h2] =
     createRequest lib ((RequestIns lib verb url)\<lparr>Headers := h2\<rparr>)"
  by (simp add: WithHeaders_def RequestIns_def HttpCaller_def)

theorem WithHeaders_twice_replaces_witness:
  "applyOptions [WithHeaders [(''A'', ''1''), (''B'', ''2'')], WithHeaders [(''C'', ''3'')]]
     (RequestIns demo_lib ''get'' ''/users'') =
   Return \<lparr>Method = ''GET'', URL = ''/users'', Headers = [(''C'', ''3'')], Cookies = [],
           Timeout = 3 * Second, PostBody = '''', Params = ''''\<rparr>"
proof -
  have "map demo_upper ''get'' = ''GET''"
    by code_simp
  then have "ToUpper demo_lib ''get'' = ''GET''"
    by (simp add: demo_lib_def)
  have up: "ToUpper demo_lib ''get'' = ''GET''" by fact
  show ?thesis
    using WithHeaders_twice_replaces
      [where ?h1.0 = "[(''A'', ''1''), (''B'', ''2'')]" and ?h2.0 = "[(''C'', ''3'')]"
        and lib = demo_lib and verb = "''get''" and url = "''/users''",
        THEN conjunct2, THEN conjunct1]
    unfolding up .
qed

section \<open>Properties of the query encoding\<close>

lemma hex_digits:
  "\<forall>n \<in> set [0..<16]. unhex (upperhex n) = n \<and> ishex (upperhex n) \<and> unreserved (upperhex n)"
  by code_simp

lemma hex_digit:
  assumes "n < 16"
  shows "unhex (upperhex n) = n" and "ishex (upperhex n)" and "unreserved (upperhex n)"
  using hex_digits assms by auto

lemma unreserved_plain:
  assumes "unreserved c"
  shows "c \<noteq> CHR ''%''" "c \<noteq> CHR ''+''" "c \<noteq> CHR ''&''" "c \<noteq> CHR ''=''" "c \<noteq> CHR '';''" "c \<noteq> CHR '' ''"
  using assms by (auto simp: unreserved_def)

lemma of_char_div16: "(of_char (c::char) :: nat) div 16 < 16"
proof -
  have "(of_char c :: nat) < 16 * 16" by simp
  then show ?thesis by (rule less_mult_imp_div_less)
qed

lemma badEscape_escape_byte: "badEscape (escape_byte c @ rest) = badEscape rest"
  by (simp add: escape_byte_def shouldEscape_def hex_digit of_char_div16 unreserved_plain)

lemma unescapeBytes_escape_byte: "unescapeBytes (escape_byte c @ rest) = c # unescapeBytes rest"
  by (simp add: escape_byte_def shouldEscape_def hex_digit of_char_div16 unreserved_plain)

lemma badEscape_QueryEscape: "badEscape (QueryEscape s) = None"
  by (induction s) (simp_all add: QueryEscape_def badEscape_escape_byte)

lemma unescapeBytes_QueryEscape: "unescapeBytes (QueryEscape s) = s"
  by (induction s) (simp_all add: QueryEscape_def unescapeBytes_escape_byte)

lemma QueryUnescape_QueryEscape: "QueryUnescape (QueryEscape s) = Inr s"
  by (simp add: QueryUnescape_def badEscape_QueryEscape unescapeBytes_QueryEscape)

lemma escape_byte_chars:
  "x \<in> set (escape_byte c) \<Longrightarrow> unreserved x \<or> x = CHR ''+'' \<or> x = CHR ''%''"
  by (auto simp: escape_byte_def shouldEscape_def hex_digit of_char_div16 split: if_splits)

lemma QueryEscape_chars:
  "x \<in> set (QueryEscape s) \<Longrightarrow> unreserved x \<or> x = CHR ''+'' \<or> x = CHR ''%''"
  by (auto simp: QueryEscape_def dest: escape_byte_chars)

lemma QueryEscape_no_separator:
  "CHR ''&'' \<notin> set (QueryEscape s)" "CHR ''='' \<notin> set (QueryEscape s)" "CHR '';'' \<notin> set (QueryEscape s)"
  using QueryEscape_chars [of _ s] unreserved_plain by fastforce+

lemma Cut_at_first: "sep \<notin> set a \<Longrightarrow> Cut (a @ sep # b) sep = (a, b, True)"
  by (induction a) auto

lemma Cut_absent: "sep \<notin> set a \<Longrightarrow> Cut a sep = (a, [], False)"
  by (induction a) auto


lemma encodedPair_nonempty: "encodedPair p \<noteq> []"
  by (simp add: encodedPair_def)

lemma encodedPair_no_separator:
  "CHR ''&'' \<notin> set (encodedPair p)" "CHR '';'' \<notin> set (encodedPair p)"
  by (simp_all add: encodedPair_def QueryEscape_no_separator)

lemma Cut_encodedPair:
  "Cut (encodedPair p) (CHR ''='') = (QueryEscape (fst p), QueryEscape (snd p), True)"
  using Cut_at_first [of "CHR ''=''" "QueryEscape (fst p)" "QueryEscape (snd p)"]
  by (simp add: encodedPair_def QueryEscape_no_separator)

lemma parseQuery_empty: "parseQuery m [] err = (m, err)"
  by (simp add: parseQuery.simps)

lemma parseQuery_piece:
  assumes "Cut query (CHR ''&'') = (encodedPair p, rest, found)"
  shows "parseQuery m query err = parseQuery (Values_Add (fst p) (snd p) m) rest err"
proof -
  have "query \<noteq> []"
    using assms encodedPair_nonempty [of p] by (cases query) auto
  then show ?thesis
    by (subst parseQuery.simps)
      (simp add: assms encodedPair_no_separator encodedPair_nonempty Cut_encodedPair
        QueryUnescape_QueryEscape)
qed

lemma parseQuery_last_pair:
  "parseQuery m (encodedPair p) err = (Values_Add (fst p) (snd p) m, err)"
proof -
  have "Cut (encodedPair p) (CHR ''&'') = (encodedPair p, [], False)"
    by (rule Cut_absent) (rule encodedPair_no_separator)
  then have "parseQuery m (encodedPair p) err = parseQuery (Values_Add (fst p) (snd p) m) [] err"
    by (rule parseQuery_piece)
  then show ?thesis by (simp add: parseQuery_empty)
qed

lemma parseQuery_next_pair:
  "parseQuery m (encodedPair p @ CHR ''&'' # rest) err =
     parseQuery (Values_Add (fst p) (snd p) m) rest err"
proof -
  have "Cut (encodedPair p @ CHR ''&'' # rest) (CHR ''&'') = (encodedPair p, rest, True)"
    by (rule Cut_at_first) (rule encodedPair_no_separator)
  then show ?thesis by (rule parseQuery_piece)
qed

lemma update_fresh: "k \<notin> fst ` set m \<Longrightarrow> AList.update k v m = m @ [(k, v)]"
  by (induction m) auto

lemma Values_Add_fresh: "k \<notin> fst ` set m \<Longrightarrow> Values_Add k v m = m @ [(k, [v])]"
  by (simp add: Values_Add_def update_fresh map_of_eq_None_iff [THEN iffD2])

lemma Values_Set_fresh: "k \<notin> fst ` set m \<Longrightarrow> Values_Set k v m = m @ [(k, [v])]"
  by (simp add: Values_Set_def update_fresh)

lemma parseQuery_joinPairs:
  "distinct (map fst m @ map fst ps) \<Longrightarrow>
   parseQuery m (joinPairs ps) err = (m @ map single ps, err)"
proof (induction ps arbitrary: m rule: joinPairs.induct)
  case 1
  then show ?case by (simp add: parseQuery_empty)
next
  case (2 p)
  then show ?case
    by (cases p) (simp add: parseQuery_last_pair Values_Add_fresh)
next
  case (3 p q ps)
  have fresh: "fst p \<notin> fst ` set m" using "3.prems" by auto
  have "distinct (map fst (m @ [(fst p, [snd p])]) @ map fst (q # ps))"
    using "3.prems" by auto
  from "3.IH" [OF this] fresh show ?case
    by (cases p) (simp add: parseQuery_next_pair Values_Add_fresh)
qed

lemma build_Values:
  "distinct (map fst acc @ map fst ps) \<Longrightarrow>
   foldl (\<lambda>m (k, v). Values_Set k v m) acc ps = acc @ map single ps"
proof (induction ps arbitrary: acc)
  case Nil
  then show ?case by simp
next
  case (Cons p ps)
  obtain k v where p: "p = (k, v)" by (cases p)
  have fresh: "k \<notin> fst ` set acc" using Cons.prems p by auto
  have "distinct (map fst (acc @ [(k, [v])]) @ map fst ps)"
    using Cons.prems p by auto
  from Cons.IH [OF this] fresh p show ?case
    by (simp add: Values_Set_fresh)
qed


lemma joinPairs_Cons:
  "joinPairs (p # ps) = (if ps = [] then encodedPair p else encodedPair p @ CHR ''&'' # joinPairs ps)"
  by (cases ps) simp_all

lemma fold_pairs_join:
  "foldl (\<lambda>buf p. (if buf = [] then buf else buf @ ''&'') @ encodedPair p) buf qs =
     (if buf = [] then joinPairs qs else if qs = [] then buf else buf @ CHR ''&'' # joinPairs qs)"
proof (induction qs arbitrary: buf)
  case Nil
  then show ?case by simp
next
  case (Cons q qs)
  show ?case
    by (simp add: Cons.IH encodedPair_nonempty joinPairs_Cons)
qed

lemma map_of_single: "map_of (map single ps) k = map_option (\<lambda>v. [v]) (map_of ps k)"
  by (induction ps) auto

lemma fold_keys_pairs:
  assumes "set ks \<subseteq> fst ` set ps"
  shows "foldl (\<lambda>buf k.
             foldl (\<lambda>buf val.
                 (if buf = [] then buf else buf @ ''&'') @ QueryEscape k @ ''='' @ QueryEscape val)
               buf (case map_of (map single ps) k of None \<Rightarrow> [] | Some vs \<Rightarrow> vs))
           buf ks =
         foldl (\<lambda>buf p. (if buf = [] then buf else buf @ ''&'') @ encodedPair p) buf
           (map (pairOf ps) ks)"
  using assms
proof (induction ks arbitrary: buf)
  case Nil
  then show ?case by simp
next
  case (Cons k ks)
  from Cons.prems obtain v where v: "map_of ps k = Some v"
    by (cases "map_of ps k") (auto simp: map_of_eq_None_iff)
  from Cons.prems have "set ks \<subseteq> fst ` set ps" by simp
  from Cons.IH [OF this] v show ?case
    by (simp add: map_of_single pairOf_def encodedPair_def)
qed

lemma Values_Encode_single:
  "Values_Encode (map single ps) = joinPairs (map (pairOf ps) (sort (map fst ps)))"
proof -
  have keys: "map fst (map single ps) = map fst ps"
    by (induction ps) auto
  have "set (sort (map fst ps)) \<subseteq> fst ` set ps" by simp
  from fold_keys_pairs [OF this, of "[]"] show ?thesis
    unfolding Values_Encode_def keys by (simp add: fold_pairs_join)
qed

lemma pairOf_fst: "distinct (map fst ps) \<Longrightarrow> p \<in> set ps \<Longrightarrow> pairOf ps (fst p) = p"
  by (cases p) (simp add: pairOf_def)

lemma mset_sorted_pairs:
  assumes "distinct (map fst ps)"
  shows "mset (map (pairOf ps) (sort (map fst ps))) = mset ps"
proof -
  have "mset (map (pairOf ps) (sort (map fst ps))) = image_mset (pairOf ps) (mset (map fst ps))"
    by simp
  also have "\<dots> = image_mset (\<lambda>p. pairOf ps (fst p)) (mset ps)"
    by (simp add: multiset.map_comp comp_def)
  also have "\<dots> = image_mset (\<lambda>p. p) (mset ps)"
    by (rule image_mset_cong) (simp add: pairOf_fst [OF assms])
  finally show ?thesis by simp
qed

lemma fst_pairOf: "map fst (map (pairOf ps) ks) = ks"
  by (induction ks) (simp_all add: pairOf_def)

lemma sorted_pairs_permutation:
  assumes "distinct (map fst ps)" and "mset ps' = mset ps"
  shows "map (pairOf ps') (sort (map fst ps')) = map (pairOf ps) (sort (map fst ps))"
proof -
  have d': "distinct (map fst ps')"
    using assms by (metis distinct_map mset_eq_setD mset_eq_imp_distinct_iff)
  have "set ps' = set ps" using assms(2) by (rule mset_eq_setD)
  then have "map_of ps' = map_of ps"
    using assms(1) d' by (simp add: map_of_inject_set)
  then have "pairOf ps' = pairOf ps" by (simp add: pairOf_def fun_eq_iff)
  moreover have "mset (map fst ps') = mset (map fst ps)" using assms(2) by simp
  then have "sort (map fst ps') = sort (map fst ps)"
    by (metis sorted_list_of_multiset_mset)
  ultimately show ?thesis by simp
qed

text \<open>
  Claim C6: for a mapping of query parameters (distinct keys), \<open>WithParams\<close> stores
  an encoded string that is the same in whatever order the entries of the mapping are
  visited, and decoding that string gives no error and exactly the pairs of the
  mapping, each key with its one value.
\<close>

theorem WithParams_encodes_and_round_trips:
  assumes "distinct (map fst params)"
  shows "\<exists>enc decoded.
           WithParams params req = Return (req\<lparr>Params := enc\<rparr>) \<and>
           (\<forall>params'. mset params' = mset params \<longrightarrow>
              WithParams params' req = Return (req\<lparr>Params := enc\<rparr>)) \<and>
           ParseQuery enc = (decoded, None) \<and>
           mset decoded = mset (map (\<lambda>(k, v). (k, [v])) params)"
proof -
  define sorted where "sorted = map (pairOf params) (sort (map fst params))"
  have enc: "WithParams ps req = Return (req\<lparr>Params := joinPairs (map (pairOf ps) (sort (map fst ps)))\<rparr>)"
    if "distinct (map fst ps)" for ps
    using that build_Values [of "[]" ps]
    by (simp add: WithParams_def Values_Encode_single)
  have "WithParams params req = Return (req\<lparr>Params := joinPairs sorted\<rparr>)"
    using enc [OF assms] by (simp add: sorted_def)
  moreover have "WithParams params' req = Return (req\<lparr>Params := joinPairs sorted\<rparr>)"
    if "mset params' = mset params" for params'
  proof -
    have "distinct (map fst params')"
      using assms that by (metis distinct_map mset_eq_setD mset_eq_imp_distinct_iff)
    from enc [OF this] sorted_pairs_permutation [OF assms that] show ?thesis
      by (simp add: sorted_def)
  qed
  moreover have dist: "distinct (map fst sorted)"
    unfolding sorted_def fst_pairOf using assms by simp
  then have "ParseQuery (joinPairs sorted) = (map single sorted, None)"
    using parseQuery_joinPairs [of "[]" sorted None] by (simp add: ParseQuery_def)
  moreover have "mset (map single sorted) = mset (map single params)"
  proof -
    have "mset sorted = mset params"
      unfolding sorted_def by (rule mset_sorted_pairs [OF assms])
    then have "image_mset single (mset sorted) = image_mset single (mset params)"
      by (rule arg_cong)
    then show ?thesis by (simp only: mset_map)
  qed
  ultimately show ?thesis by blast
qed

theorem WithParams_encodes_and_round_trips_witness:
  "distinct (map fst [(''b'', ''2 3''), (''a'', ''1'')]) \<and>
   WithParams [(''b'', ''2 3''), (''a'', ''1'')] (demo_descriptor ''GET'' ''/users'') =
     Return ((demo_descriptor ''GET'' ''/users'')\<lparr>Params := ''a=1&b=2+3''\<rparr>) \<and>
   WithParams [(''a'', ''1''), (''b'', ''2 3'')] (demo_descriptor ''GET'' ''/users'') =
     Return ((demo_descriptor ''GET'' ''/users'')\<lparr>Params := ''a=1&b=2+3''\<rparr>) \<and>
   ParseQuery ''a=1&b=2+3'' = ([(''a'', [''1'']), (''b'', [''2 3''])], None)"
proof -
  let ?ps = "[(''b'', ''2 3''), (''a'', ''1'')]"
  let ?req = "demo_descriptor ''GET'' ''/users''"
  have h: "distinct (map fst ?ps)" by simp
  have enc: "Values_Encode (foldl (\<lambda>m (k, v). Values_Set k v m) [] ?ps) = ''a=1&b=2+3''"
    by code_simp
  have w: "WithParams ?ps ?req = Return (?req\<lparr>Params := ''a=1&b=2+3''\<rparr>)"
    unfolding WithParams_def Let_def enc ..
  have dec: "ParseQuery ''a=1&b=2+3'' = ([(''a'', [''1'']), (''b'', [''2 3''])], None)"
    by code_simp
  from WithParams_encodes_and_round_trips [OF h, of ?req]
  obtain enc' decoded where
    1: "WithParams ?ps ?req = Return (?req\<lparr>Params := enc'\<rparr>)" and
    2: "\<forall>params'. mset params' = mset ?ps \<longrightarrow> WithParams params' ?req = Return (?req\<lparr>Params := enc'\<rparr>)"
    by blast
  from 1 w have "Params (?req\<lparr>Params := enc'\<rparr>) = Params (?req\<lparr>Params := ''a=1&b=2+3''\<rparr>)"
    by simp
  then have e: "enc' = ''a=1&b=2+3''" by simp
  have "mset [(''a'', ''1''), (''b'', ''2 3'')] = mset ?ps" by (simp add: add_mset_commute)
  with 2 have "WithParams [(''a'', ''1''), (''b'', ''2 3'')] ?req = Return (?req\<lparr>Params := enc'\<rparr>)"
    by blast
  with h w dec e show ?thesis by simp
qed

section \<open>Properties of the executor\<close>

text \<open>
  Claim C7: once the URL string has parsed, the query component of the parsed URL is
  \<open>Params\<close>, empty or not; the outbound request is constructed from the string of
  that URL, and it is that request which is sent. So the query of the request is what
  the option for the query parameters supplied, and a URL argument that differs only in
  its query string gives the same outbound request and the same result.
\<close>

theorem createRequest_query_is_Params:
  assumes "ParseRequestURI lib (URL req) = Inr u"
  shows "parsedURL lib req = Return (u\<lparr>RawQuery := Params req\<rparr>) \<and>
         outboundRequest lib req =
           (case NewRequest lib (Method req) (URL_String lib (u\<lparr>RawQuery := Params req\<rparr>))
                   (PostBody req) of
              Inl err \<Rightarrow> ([''create request instance failed''], Return None)
            | Inr rq0 \<Rightarrow>
                (case addCookies lib (Cookies req)
                        (foldl (\<lambda>rq (key, val). Header_Set lib key val rq) rq0 (Headers req)) of
                   Panic p \<Rightarrow> ([], Panic p)
                 | Return rq \<Rightarrow> ([], Return (Some rq)))) \<and>
         createRequest lib req =
           (case NewRequest lib (Method req) (URL_String lib (u\<lparr>RawQuery := Params req\<rparr>))
                   (PostBody req) of
              Inl err \<Rightarrow> ([''create request instance failed''], Return None)
            | Inr rq0 \<Rightarrow>
                (case addCookies lib (Cookies req)
                        (foldl (\<lambda>rq (key, val). Header_Set lib key val rq) rq0 (Headers req)) of
                   Panic p \<Rightarrow> ([], Panic p)
                 | Return rq \<Rightarrow>
                     (case Do lib rq of
                        Inl err \<Rightarrow>
                          ([], Panic (PanicString (''send request error:'' @ err @ [CHR 0x0A])))
                      | Inr response \<Rightarrow> ([], Return (Some response))))) \<and>
         (\<forall>url' q. ParseRequestURI lib url' = Inr (u\<lparr>RawQuery := q\<rparr>) \<longrightarrow>
            outboundRequest lib (req\<lparr>URL := url'\<rparr>) = outboundRequest lib req \<and>
            createRequest lib (req\<lparr>URL := url'\<rparr>) = createRequest lib req)"
proof (intro conjI allI impI)
  show p: "parsedURL lib req = Return (u\<lparr>RawQuery := Params req\<rparr>)"
    using assms by (simp add: parsedURL_def)
  show ob: "outboundRequest lib req =
           (case NewRequest lib (Method req) (URL_String lib (u\<lparr>RawQuery := Params req\<rparr>))
                   (PostBody req) of
              Inl err \<Rightarrow> ([''create request instance failed''], Return None)
            | Inr rq0 \<Rightarrow>
                (case addCookies lib (Cookies req)
                        (foldl (\<lambda>rq (key, val). Header_Set lib key val rq) rq0 (Headers req)) of
                   Panic p \<Rightarrow> ([], Panic p)
                 | Return rq \<Rightarrow> ([], Return (Some rq))))"
    by (simp add: outboundRequest_def p Let_def split: sum.split)
  show "createRequest lib req =
           (case NewRequest lib (Method req) (URL_String lib (u\<lparr>RawQuery := Params req\<rparr>))
                   (PostBody req) of
              Inl err \<Rightarrow> ([''create request instance failed''], Return None)
            | Inr rq0 \<Rightarrow>
                (case addCookies lib (Cookies req)
                        (foldl (\<lambda>rq (key, val). Header_Set lib key val rq) rq0 (Headers req)) of
                   Panic p \<Rightarrow> ([], Panic p)
                 | Return rq \<Rightarrow>
                     (case Do lib rq of
                        Inl err \<Rightarrow>
                          ([], Panic (PanicString (''send request error:'' @ err @ [CHR 0x0A])))
                      | Inr response \<Rightarrow> ([], Return (Some response)))))"
    unfolding createRequest_def ob by (simp split: sum.split outcome.split)
  fix url' q
  assume "ParseRequestURI lib url' = Inr (u\<lparr>RawQuery := q\<rparr>)"
  then have "parsedURL lib (req\<lparr>URL := url'\<rparr>) = parsedURL lib req"
    by (simp add: p) (simp add: parsedURL_def)
  then show o: "outboundRequest lib (req\<lparr>URL := url'\<rparr>) = outboundRequest lib req"
    by (simp add: outboundRequest_def split: outcome.split sum.split)
  show "createRequest lib (req\<lparr>URL := url'\<rparr>) = createRequest lib req"
    by (simp add: createRequest_def o)
qed

theorem createRequest_query_is_Params_witness:
  "ParseRequestURI demo_lib (URL ((demo_descriptor ''GET'' ''/users?page=2'')\<lparr>Params := ''a=1''\<rparr>)) =
     Inr \<lparr>Scheme = [], Opaque = [], Host = [], Path = ''/users'', RawPath = [],
          OmitHost = False, ForceQuery = False, RawQuery = ''page=2'', Fragment = [],
          RawFragment = []\<rparr> \<and>
   parsedURL demo_lib ((demo_descriptor ''GET'' ''/users?page=2'')\<lparr>Params := ''a=1''\<rparr>) =
     Return \<lparr>Scheme = [], Opaque = [], Host = [], Path = ''/users'', RawPath = [],
          OmitHost = False, ForceQuery = False, RawQuery = ''a=1'', Fragment = [],
          RawFragment = []\<rparr> \<and>
   outboundRequest demo_lib ((demo_descriptor ''GET'' ''/users?page=2'')\<lparr>Params := ''a=1''\<rparr>) =
     ([], Return (Some \<lparr>req_method = ''GET'', req_url = ''/users?a=1'', req_body = [],
                        req_header = [(''Accept'', ''*/*'')], req_cookies = []\<rparr>)) \<and>
   outboundRequest demo_lib (demo_descriptor ''GET'' ''/users?page=2'') =
     ([], Return (Some \<lparr>req_method = ''GET'', req_url = ''/users'', req_body = [],
                        req_header = [(''Accept'', ''*/*'')], req_cookies = []\<rparr>)) \<and>
   createRequest demo_lib (demo_descriptor ''GET'' ''/users'') =
     createRequest demo_lib (demo_descriptor ''GET'' ''/users?page=2'')"
proof -
  let ?u = "\<lparr>Scheme = [], Opaque = [], Host = [], Path = ''/users'', RawPath = [],
          OmitHost = False, ForceQuery = False, RawQuery = ''page=2'', Fragment = [],
          RawFragment = []\<rparr>"
  let ?d = "demo_descriptor ''GET'' ''/users?page=2''"
  let ?da = "?d\<lparr>Params := ''a=1''\<rparr>"
  have ha: "ParseRequestURI demo_lib (URL ?da) = Inr ?u"
    by (simp add: demo_lib_def demo_parse_def demo_descriptor_def)
  have h: "ParseRequestURI demo_lib (URL ?d) = Inr ?u"
    by (simp add: demo_lib_def demo_parse_def demo_descriptor_def)
  have h': "ParseRequestURI demo_lib ''/users'' = Inr (?u\<lparr>RawQuery := []\<rparr>)"
    by (simp add: demo_lib_def demo_parse_def)
  have d: "?d\<lparr>URL := ''/users''\<rparr> = demo_descriptor ''GET'' ''/users''"
    by (simp add: demo_descriptor_def)
  note A = createRequest_query_is_Params [OF ha]
  note B = createRequest_query_is_Params [OF h]
  have 1: "parsedURL demo_lib ?da = Return (?u\<lparr>RawQuery := ''a=1''\<rparr>)"
    using A [THEN conjunct1] by (simp add: demo_descriptor_def)
  have 2: "outboundRequest demo_lib ?da =
     ([], Return (Some \<lparr>req_method = ''GET'', req_url = ''/users?a=1'', req_body = [],
                        req_header = [(''Accept'', ''*/*'')], req_cookies = []\<rparr>))"
    using A [THEN conjunct2, THEN conjunct1]
    by (simp add: demo_descriptor_def demo_lib_def demo_string_def demo_NewRequest_def)
  have 3: "outboundRequest demo_lib ?d =
     ([], Return (Some \<lparr>req_method = ''GET'', req_url = ''/users'', req_body = [],
                        req_header = [(''Accept'', ''*/*'')], req_cookies = []\<rparr>))"
    using B [THEN conjunct2, THEN conjunct1]
    by (simp add: demo_descriptor_def demo_lib_def demo_string_def demo_NewRequest_def)
  have 4: "createRequest demo_lib (?d\<lparr>URL := ''/users''\<rparr>) = createRequest demo_lib ?d"
    using B [THEN conjunct2, THEN conjunct2, THEN conjunct2] h' by blast
  from ha 1 2 3 4 show ?thesis
    unfolding d by simp
qed

text \<open>
  Claim C8: a failure of \<open>json.Marshal\<close> in \<open>WithPostJsonBody\<close>, a URL string that
  does not parse, and a transport error of the client each end in a panic; no error
  value is returned.
\<close>

theorem unrecoverable_failures_panic:
  "(json_Marshal payload = Inl e1 \<longrightarrow>
      WithPostJsonBody json_Marshal payload req =
        Panic (PanicString ''convert postBody to string error'') \<and>
      HttpCaller lib verb url [WithPostJsonBody json_Marshal payload] =
        ([], Panic (PanicString ''convert postBody to string error''))) \<and>
   (ParseRequestURI lib (URL req) = Inl e2 \<longrightarrow>
      createRequest lib req =
        ([], Panic (PanicString (''parse url requestUrl failed, err:'' @ e2 @ [CHR 0x0A])))) \<and>
   (outboundRequest lib req = (out, Return (Some rq)) \<and> Do lib rq = Inl e3 \<longrightarrow>
      createRequest lib req =
        (out, Panic (PanicString (''send request error:'' @ e3 @ [CHR 0x0A]))))"
  by (simp add: WithPostJsonBody_def HttpCaller_def createRequest_def outboundRequest_def
      parsedURL_def)

theorem unrecoverable_failures_panic_witness:
  "demo_Marshal None = Inl ''json: unsupported value'' \<and>
   WithPostJsonBody demo_Marshal None (demo_descriptor ''GET'' ''/down'') =
     Panic (PanicString ''convert postBody to string error'') \<and>
   HttpCaller demo_lib ''post'' ''/users'' [WithPostJsonBody demo_Marshal None] =
     ([], Panic (PanicString ''convert postBody to string error'')) \<and>
   ParseRequestURI demo_lib (URL (demo_descriptor ''GET'' [])) = Inl ''empty url'' \<and>
   createRequest demo_lib (demo_descriptor ''GET'' []) =
     ([], Panic (PanicString (''parse url requestUrl failed, err:empty url'' @ [CHR 0x0A]))) \<and>
   Do demo_lib \<lparr>req_method = ''GET'', req_url = ''/down'', req_body = [],
       req_header = [(''Accept'', ''*/*'')], req_cookies = []\<rparr> = Inl ''connection refused'' \<and>
   createRequest demo_lib (demo_descriptor ''GET'' ''/down'') =
     ([], Panic (PanicString (''send request error:connection refused'' @ [CHR 0x0A])))"
proof -
  let ?rq = "\<lparr>req_method = ''GET'', req_url = ''/down'', req_body = [],
       req_header = [(''Accept'', ''*/*'')], req_cookies = []\<rparr>"
  have m: "demo_Marshal None = Inl ''json: unsupported value''"
    by (simp add: demo_Marshal_def)
  have p: "ParseRequestURI demo_lib (URL (demo_descriptor ''GET'' [])) = Inl ''empty url''"
    by (simp add: demo_lib_def demo_parse_def demo_descriptor_def)
  have o: "outboundRequest demo_lib (demo_descriptor ''GET'' ''/down'') = ([], Return (Some ?rq))"
    by (simp add: outboundRequest_def parsedURL_def demo_lib_def demo_parse_def
        demo_descriptor_def demo_string_def demo_NewRequest_def)
  have d: "Do demo_lib ?rq = Inl ''connection refused''"
    by (simp add: demo_lib_def demo_Do_def)
  from unrecoverable_failures_panic
    [where json_Marshal = demo_Marshal and payload = None and ?e1.0 = "''json: unsupported value''"
      and req = "demo_descriptor ''GET'' ''/down''" and lib = demo_lib and verb = "''post''"
      and url = "''/users''" and out = "[]" and rq = ?rq and ?e3.0 = "''connection refused''"]
    unrecoverable_failures_panic
    [where req = "demo_descriptor ''GET'' []" and lib = demo_lib and ?e2.0 = "''empty url''",
      THEN conjunct2, THEN conjunct1]
    m p o d
  show ?thesis by simp
qed

text \<open>
  Claim C10: when \<open>http.NewRequest\<close> fails, \<open>createRequest\<close> prints a line and
  returns nil, so \<open>HttpCaller\<close> returns nil without a panic; either decoder run on
  that nil response panics on the nil pointer.
\<close>

theorem NewRequest_failure_returns_nil:
  assumes "ParseRequestURI lib (URL req) = Inr u"
    and "NewRequest lib (Method req) (URL_String lib (u\<lparr>RawQuery := Params req\<rparr>)) (PostBody req) = Inl e"
  shows "createRequest lib req = ([''create request instance failed''], Return None) \<and>
         (applyOptions options (RequestIns lib method url) = Return req \<longrightarrow>
            HttpCaller lib method url options = ([''create request instance failed''], Return None)) \<and>
         ResponseToStruct fastJson_Unmarshal None v = Panic NilDereference \<and>
         ResponseToMap json_Decode None = Panic NilDereference"
  using assms
  by (simp add: createRequest_def outboundRequest_def parsedURL_def HttpCaller_def
      ResponseToStruct_def responseToBytes_def ResponseToMap_def)

theorem NewRequest_failure_returns_nil_witness:
  "ParseRequestURI demo_lib (URL (RequestIns demo_lib ''ge t'' ''/users'')) =
     Inr \<lparr>Scheme = [], Opaque = [], Host = [], Path = ''/users'', RawPath = [],
          OmitHost = False, ForceQuery = False, RawQuery = [], Fragment = [],
          RawFragment = []\<rparr> \<and>
   NewRequest demo_lib ''GE T'' ''/users'' [] = Inl ''net/http: invalid method'' \<and>
   createRequest demo_lib (RequestIns demo_lib ''ge t'' ''/users'') =
     ([''create request instance failed''], Return None) \<and>
   HttpCaller demo_lib ''ge t'' ''/users'' [] =
     ([''create request instance failed''], Return None) \<and>
   ResponseToStruct demo_Unmarshal None (0::nat) = Panic NilDereference \<and>
   ResponseToMap demo_Decode None = Panic NilDereference"
proof -
  let ?req = "RequestIns demo_lib ''ge t'' ''/users''"
  let ?u = "\<lparr>Scheme = [], Opaque = [], Host = [], Path = ''/users'', RawPath = [],
          OmitHost = False, ForceQuery = False, RawQuery = [], Fragment = [],
          RawFragment = []\<rparr>"
  have up: "map demo_upper ''ge t'' = ''GE T''" by code_simp
  have h1: "ParseRequestURI demo_lib (URL ?req) = Inr ?u"
    by (simp add: demo_lib_def demo_parse_def RequestIns_def)
  have n: "NewRequest demo_lib ''GE T'' ''/users'' [] = Inl ''net/http: invalid method''"
    by (simp add: demo_lib_def demo_NewRequest_def)
  have h2: "NewRequest demo_lib (Method ?req) (URL_String demo_lib (?u\<lparr>RawQuery := Params ?req\<rparr>))
      (PostBody ?req) = Inl ''net/http: invalid method''"
    using up by (simp add: demo_lib_def demo_NewRequest_def RequestIns_def demo_string_def)
  from NewRequest_failure_returns_nil [OF h1 h2, of "[]" "''ge t''" "''/users''" demo_Unmarshal 0 demo_Decode]
    h1 n
  show ?thesis by simp
qed

lemma library_options_timeout_blind:
  "timeout_blind (WithHeaders h)" "timeout_blind (WithCookies c)" "timeout_blind (WithParams p)"
  "timeout_blind (WithPostJsonBody json_Marshal d)" "timeout_blind (WithPostStringBody s)"
  by (auto simp: timeout_blind_def WithHeaders_def WithCookies_def WithParams_def
      WithPostJsonBody_def WithPostStringBody_def split: sum.splits)

lemma same_but_Timeout_refl: "same_but_Timeout r r"
  by (simp add: same_but_Timeout_def)

lemma same_but_Timeout_update:
  "same_but_Timeout r1 r2 \<Longrightarrow> same_but_Timeout (r1\<lparr>Timeout := t1\<rparr>) (r2\<lparr>Timeout := t2\<rparr>)"
  "same_but_Timeout r1 r2 \<Longrightarrow> same_but_Timeout (r1\<lparr>Timeout := t1\<rparr>) r2"
  "same_but_Timeout r1 r2 \<Longrightarrow> same_but_Timeout r1 (r2\<lparr>Timeout := t2\<rparr>)"
  by (cases r1; cases r2; simp add: same_but_Timeout_def)+

lemma timeout_blind_step:
  assumes "timeout_blind opt" and "same_but_Timeout r1 r2"
  shows "rel_outcome same_but_Timeout (opt r1) (opt r2)"
proof -
  from assms(2) have "r2 = r1\<lparr>Timeout := Timeout r2\<rparr>" by (simp add: same_but_Timeout_def)
  then have "opt r2 = map_outcome (\<lambda>r. r\<lparr>Timeout := Timeout r2\<rparr>) (opt r1)"
    using assms(1) by (metis timeout_blind_def)
  then show ?thesis
    by (cases "opt r1") (auto simp: same_but_Timeout_def)
qed

lemma applyOptions_timeout_variant:
  assumes "timeout_variant xs ys" and "same_but_Timeout r1 r2"
  shows "rel_outcome same_but_Timeout (applyOptions xs r1) (applyOptions ys r2)"
  using assms
proof (induction arbitrary: r1 r2 rule: timeout_variant.induct)
  case tv_Nil
  then show ?case by simp
next
  case (tv_same opt xs ys)
  from timeout_blind_step [OF tv_same.hyps(1) tv_same.prems] show ?case
    by (cases "opt r1"; cases "opt r2") (auto intro: tv_same.IH)
next
  case (tv_change xs ys t1 t2)
  then show ?case by (simp add: WithTimeout_def same_but_Timeout_update)
next
  case (tv_left xs ys t)
  then show ?case by (simp add: WithTimeout_def same_but_Timeout_update)
next
  case (tv_right xs ys t)
  then show ?case by (simp add: WithTimeout_def same_but_Timeout_update)
qed

lemma outboundRequest_ignores_Timeout:
  "outboundRequest lib (req\<lparr>Timeout := t\<rparr>) = outboundRequest lib req"
proof -
  have "parsedURL lib (req\<lparr>Timeout := t\<rparr>) = parsedURL lib req"
    by (simp add: parsedURL_def split: sum.split)
  then show ?thesis by (simp add: outboundRequest_def split: outcome.split sum.split)
qed

lemma createRequest_ignores_Timeout:
  "createRequest lib (req\<lparr>Timeout := t\<rparr>) = createRequest lib req"
  by (simp add: createRequest_def outboundRequest_ignores_Timeout)

text \<open>
  Claim C9: two calls of \<open>HttpCaller\<close> that differ only in the timeout supplied
  through \<open>WithTimeout\<close> construct the same outbound request and have the same
  result; the option writes the field \<open>Timeout\<close>, and neither the construction of the
  request nor the sending reads it.
\<close>

theorem timeout_is_inert:
  assumes "timeout_variant options1 options2"
  shows "HttpCaller_outbound lib method url options1 = HttpCaller_outbound lib method url options2 \<and>
         HttpCaller lib method url options1 = HttpCaller lib method url options2 \<and>
         applyOptions [WithTimeout t] req = Return (req\<lparr>Timeout := t\<rparr>) \<and>
         outboundRequest lib (req\<lparr>Timeout := t\<rparr>) = outboundRequest lib req \<and>
         createRequest lib (req\<lparr>Timeout := t\<rparr>) = createRequest lib req"
proof -
  let ?r = "RequestIns lib method url"
  have rel: "rel_outcome same_but_Timeout (applyOptions options1 ?r) (applyOptions options2 ?r)"
    using assms same_but_Timeout_refl by (rule applyOptions_timeout_variant)
  have "HttpCaller_outbound lib method url options1 = HttpCaller_outbound lib method url options2"
  proof (cases "applyOptions options1 ?r")
    case (Panic p)
    with rel show ?thesis
      by (cases "applyOptions options2 ?r") (simp_all add: HttpCaller_outbound_def)
  next
    case (Return r1)
    with rel obtain r2 where r2: "applyOptions options2 ?r = Return r2" "same_but_Timeout r1 r2"
      by (cases "applyOptions options2 ?r") simp_all
    then have "outboundRequest lib r2 = outboundRequest lib r1"
      by (metis same_but_Timeout_def outboundRequest_ignores_Timeout)
    with Return r2 show ?thesis by (simp add: HttpCaller_outbound_def)
  qed
  moreover have "HttpCaller lib method url options1 = HttpCaller lib method url options2"
  proof (cases "applyOptions options1 ?r")
    case (Panic p)
    with rel show ?thesis
      by (cases "applyOptions options2 ?r") (simp_all add: HttpCaller_def)
  next
    case (Return r1)
    with rel obtain r2 where r2: "applyOptions options2 ?r = Return r2" "same_but_Timeout r1 r2"
      by (cases "applyOptions options2 ?r") simp_all
    then have "createRequest lib r2 = createRequest lib r1"
      by (metis same_but_Timeout_def createRequest_ignores_Timeout)
    with Return r2 show ?thesis by (simp add: HttpCaller_def)
  qed
  ultimately show ?thesis
    by (simp add: WithTimeout_def outboundRequest_ignores_Timeout createRequest_ignores_Timeout)
qed

theorem timeout_is_inert_witness:
  "timeout_variant
     [WithTimeout (5 * Second), WithHeaders [(''A'', ''1'')] :: (string \<times> string) Option]
     [WithHeaders [(''A'', ''1'')]] \<and>
   HttpCaller_outbound demo_lib ''get'' ''/users'' [WithTimeout (5 * Second), WithHeaders [(''A'', ''1'')]] =
     ([], Return (Some \<lparr>req_method = ''GET'', req_url = ''/users'', req_body = [],
                        req_header = [(''A'', ''1'')], req_cookies = []\<rparr>)) \<and>
   HttpCaller_outbound demo_lib ''get'' ''/users'' [WithHeaders [(''A'', ''1'')]] =
     ([], Return (Some \<lparr>req_method = ''GET'', req_url = ''/users'', req_body = [],
                        req_header = [(''A'', ''1'')], req_cookies = []\<rparr>)) \<and>
   HttpCaller demo_lib ''get'' ''/users'' [WithTimeout (5 * Second), WithHeaders [(''A'', ''1'')]] =
     HttpCaller demo_lib ''get'' ''/users'' [WithHeaders [(''A'', ''1'')]]"
proof -
  have v: "timeout_variant
     [WithTimeout (5 * Second), WithHeaders [(''A'', ''1'')] :: (string \<times> string) Option]
     [WithHeaders [(''A'', ''1'')]]"
    by (intro tv_left tv_same tv_Nil library_options_timeout_blind)
  have up: "map demo_upper ''get'' = ''GET''" by code_simp
  have o: "HttpCaller_outbound demo_lib ''get'' ''/users'' [WithHeaders [(''A'', ''1'')]] =
     ([], Return (Some \<lparr>req_method = ''GET'', req_url = ''/users'', req_body = [],
                        req_header = [(''A'', ''1'')], req_cookies = []\<rparr>))"
    using up
    by (simp add: HttpCaller_outbound_def RequestIns_def WithHeaders_def outboundRequest_def
        parsedURL_def demo_lib_def demo_parse_def demo_string_def demo_NewRequest_def)
  from timeout_is_inert [OF v, of demo_lib "''get''" "''/users''"] v o show ?thesis
    by simp
qed

section \<open>Properties of the decoder\<close>

text \<open>
  Claim C3: on a response, \<open>ResponseToStruct\<close> returns; the error is non-nil exactly
  when the status code is not 200, or the body cannot be read to its end, or the bytes
  read do not unmarshal into the target; with no error the target is what unmarshalling
  the bytes of the body made of it; and the body is closed in every case.
\<close>

theorem ResponseToStruct_error_iff:
  "\<exists>err v' resp'.
     ResponseToStruct fastJson_Unmarshal (Some resp) v = Return (err, v', resp') \<and>
     (err \<noteq> None \<longleftrightarrow>
        StatusCode resp \<noteq> 200 \<or>
        (\<exists>e. fst (ReadAll (Body resp)) = Inl e) \<or>
        (\<exists>bytes e. fst (ReadAll (Body resp)) = Inr bytes \<and> fst (fastJson_Unmarshal bytes v) = Some e)) \<and>
     (err = None \<longrightarrow>
        (\<exists>bytes. fst (ReadAll (Body resp)) = Inr bytes \<and> v' = snd (fastJson_Unmarshal bytes v))) \<and>
     closed (Body resp')"
  by (auto simp: ResponseToStruct_def responseToBytes_def StatusOK_def FastJsonUnMarshal_def
      Close_def split: prod.splits sum.splits option.splits)

theorem ResponseToStruct_error_iff_witness:
  "ResponseToStruct demo_Unmarshal
     (Some \<lparr>StatusCode = 200, Body = \<lparr>pending = ''1'', failure = None, closed = False\<rparr>\<rparr>) 0 =
     Return (None, 1, \<lparr>StatusCode = 200, Body = \<lparr>pending = [], failure = None, closed = True\<rparr>\<rparr>) \<and>
   ResponseToStruct demo_Unmarshal
     (Some \<lparr>StatusCode = 404, Body = \<lparr>pending = ''1'', failure = None, closed = False\<rparr>\<rparr>) 0 =
     Return (Some (ResponseToBytesError (StatusNot200 404)), 0,
       \<lparr>StatusCode = 404, Body = \<lparr>pending = ''1'', failure = None, closed = True\<rparr>\<rparr>)"
  using ResponseToStruct_error_iff
    [of demo_Unmarshal "\<lparr>StatusCode = 200, Body = \<lparr>pending = ''1'', failure = None, closed = False\<rparr>\<rparr>" 0]
  by (simp add: ResponseToStruct_def responseToBytes_def StatusOK_def ReadAll_def Close_def
      FastJsonUnMarshal_def demo_Unmarshal_def)

text \<open>
  Whatever the decoder is: when it reports an error the result is nil, and when it
  reports none the result is what it decoded, for every status code.
\<close>

lemma ResponseToMap_swallows_errors:
  "(json_Decode (Body resp) = (ret, Some e, body') \<longrightarrow>
      ResponseToMap json_Decode (Some resp) = Return (None, resp\<lparr>Body := Close body'\<rparr>)) \<and>
   (json_Decode (Body resp) = (ret, None, body') \<longrightarrow>
      (\<forall>code. ResponseToMap json_Decode (Some (resp\<lparr>StatusCode := code\<rparr>)) =
         Return (ret, resp\<lparr>StatusCode := code, Body := Close body'\<rparr>)))"
  by (simp add: ResponseToMap_def)

text \<open>What is left after a string, a number, a literal or a value is shorter.\<close>

lemma scanString_shorter: "scanString s = Some (raw, rest) \<Longrightarrow> length rest < Suc (length s)"
  by (induction s arbitrary: raw rest rule: scanString.induct)
    (fastforce split: if_splits list.splits)+

lemma dropDigits_le: "length (dropWhile isDigit s) \<le> length s"
  by (rule length_dropWhile_le)

lemma scanInteger_shorter: "scanInteger s = Some (ip, rest) \<Longrightarrow> length rest < length s"
  using dropDigits_le by (auto simp: scanInteger_def less_Suc_eq_le split: list.splits if_splits)

lemma scanFraction_le: "scanFraction s = Some (fr, rest) \<Longrightarrow> length rest \<le> length s"
  using dropDigits_le by (auto simp: scanFraction_def le_Suc_eq split: list.splits if_splits)

lemma scanSign_le: "scanSign s = (sign, rest) \<Longrightarrow> length rest \<le> length s"
  by (auto simp: scanSign_def split: list.splits if_splits)

lemma scanExponent_le: "scanExponent s = Some (ex, rest) \<Longrightarrow> length rest \<le> length s"
proof (cases s)
  case Nil
  then show "scanExponent s = Some (ex, rest) \<Longrightarrow> ?thesis" by (simp add: scanExponent_def)
next
  case (Cons c cs)
  assume a: "scanExponent s = Some (ex, rest)"
  obtain sign ds where sg: "scanSign cs = (sign, ds)" by (cases "scanSign cs")
  from scanSign_le [OF sg] have "length ds \<le> length cs" .
  moreover have "length (dropWhile isDigit ds) \<le> length ds" by (rule dropDigits_le)
  ultimately show ?thesis
    using a Cons sg by (auto simp: scanExponent_def split: if_splits)
qed

lemma scanNumber_shorter:
  assumes "scanNumber s = Some (lit, rest)"
  shows "length rest < length s"
proof -
  obtain neg s1 where n: "(case s of [] \<Rightarrow> ([], s) | c # cs \<Rightarrow> if c = CHR ''-'' then ([c], cs) else ([], s)) = (neg, s1)"
    by (cases "(case s of [] \<Rightarrow> ([], s) | c # cs \<Rightarrow> if c = CHR ''-'' then ([c], cs) else ([], s))")
  then have l1: "length s1 \<le> length s" by (auto split: list.splits if_splits)
  from assms n obtain ip s2 fr s3 ex where
    "scanInteger s1 = Some (ip, s2)" "scanFraction s2 = Some (fr, s3)" "scanExponent s3 = Some (ex, rest)"
    by (auto simp: scanNumber_def split: option.splits)
  with scanInteger_shorter scanFraction_le scanExponent_le l1 show ?thesis
    by fastforce
qed

lemma scanLiteral_shorter: "scanLiteral s = Some (v, rest) \<Longrightarrow> length rest < length s"
  by (auto simp: scanLiteral_def prefix_def split: if_splits)

lemma parse_shorter:
  "(\<forall>v r. parseValue s = Some (v, r) \<longrightarrow> length r < length s)" 
  "(\<forall>vs r. parseElements s' = Some (vs, r) \<longrightarrow> length r < length s')"
  "(\<forall>ms r. parseMembers s'' = Some (ms, r) \<longrightarrow> length r < length s'')"
proof (induction s and s' and s'' rule: parseValue_parseElements_parseMembers.induct)
  case (1 s)
  show ?case
  proof (intro allI impI)
    fix v r
    assume a: "parseValue s = Some (v, r)"
    then obtain c cs where sk: "skipSpace s = c # cs"
      by (subst (asm) parseValue.simps) (auto split: list.splits)
    from skipSpace_shorter [OF sk] have lcs: "length cs < length s" .
    from a sk show "length r < length s"
      apply (subst (asm) parseValue.simps)
      apply (simp split: if_splits list.splits)
      using lcs 1 skipSpace_shorter scanString_shorter [of cs] scanNumber_shorter [of "c # cs"] scanLiteral_shorter [of "c # cs"]
           apply (fastforce dest: skipSpace_shorter)+
      done
  qed
next
  case (2 s)
  show ?case
  proof (intro allI impI)
    fix vs r
    assume a: "parseElements s = Some (vs, r)"
    then obtain v r0 where pv: "parseValue s = Some (v, r0)"
      by (subst (asm) parseElements.simps) (auto split: option.splits)
    with a obtain c r' where sk: "skipSpace r0 = c # r'"
      by (subst (asm) parseElements.simps) (auto split: list.splits)
    from "2.IH"(1) pv have l0: "length r0 < length s" by blast
    from skipSpace_shorter [OF sk] have l1: "length r' < length r0" .
    show "length r < length s"
    proof (cases "c = CHR '',''")
      case True
      with a pv sk obtain vs' where pe: "parseElements r' = Some (vs', r)"
        by (subst (asm) parseElements.simps) (auto split: option.splits if_splits)
      from l0 l1 have "length r' < length s" by simp
      from "2.IH"(2) [OF pv refl sk True this] pe have "length r < length r'" by blast
      with l0 l1 show ?thesis by simp
    next
      case False
      with a pv sk have "r = r'"
        by (subst (asm) parseElements.simps) (auto split: if_splits)
      with l0 l1 show ?thesis by simp
    qed
  qed
next
  case (3 s)
  show ?case
  proof (intro allI impI)
    fix ms r
    assume a: "parseMembers s = Some (ms, r)"
    then obtain q s1 where sk0: "skipSpace s = q # s1"
      by (subst (asm) parseMembers.simps) (auto split: list.splits)
    with a have q: "q = CHR 0x22"
      by (subst (asm) parseMembers.simps) (auto split: if_splits)
    with a sk0 obtain key s2 where ss: "scanString s1 = Some (key, s2)"
      by (subst (asm) parseMembers.simps) (auto split: option.splits)
    with a sk0 q obtain c s3 where sk1: "skipSpace s2 = c # s3"
      by (subst (asm) parseMembers.simps) (auto split: list.splits)
    with a sk0 q ss have c: "c = CHR '':'' \<and> length s3 < length s"
      by (subst (asm) parseMembers.simps) (auto split: if_splits)
    with a sk0 q ss sk1 obtain v r0 where pv: "parseValue s3 = Some (v, r0)"
      by (subst (asm) parseMembers.simps) (auto split: option.splits)
    with a sk0 q ss sk1 c obtain c' r' where sk2: "skipSpace r0 = c' # r'"
      by (subst (asm) parseMembers.simps) (auto split: list.splits)
    from "3.IH"(1) [OF sk0 q ss refl sk1 c] pv have l0: "length r0 < length s3" by blast
    from skipSpace_shorter [OF sk2] have l1: "length r' < length r0" .
    show "length r < length s"
    proof (cases "c' = CHR '',''")
      case True
      with a sk0 q ss sk1 c pv sk2 obtain ms' where pm: "parseMembers r' = Some (ms', r)"
        by (subst (asm) parseMembers.simps) (auto split: option.splits if_splits)
      from l0 l1 c have lr: "length r' < length s" by simp
      from "3.IH"(2) [OF sk0 q ss refl sk1 c pv refl sk2 True lr] pm
      have "length r < length r'" by blast
      with lr show ?thesis by simp
    next
      case False
      with a sk0 q ss sk1 c pv sk2 have "r = r'"
        by (subst (asm) parseMembers.simps) (auto split: if_splits)
      with l0 l1 c show ?thesis by simp
    qed
  qed
qed


text \<open>The comparisons of lengths in the parser never fail: it obeys the plain equations.\<close>

lemma parseElements_unguarded:
  "parseElements s =
     (case parseValue s of
        None \<Rightarrow> None
      | Some (v, r) \<Rightarrow>
          (case skipSpace r of
             [] \<Rightarrow> None
           | c # r' \<Rightarrow>
               if c = CHR '','' then
                 (case parseElements r' of
                    None \<Rightarrow> None
                  | Some (vs, rest) \<Rightarrow> Some (v # vs, rest))
               else if c = CHR '']'' then Some ([v], r')
               else None))"
proof -
  have "length r' < length s" if "parseValue s = Some (v, r)" "skipSpace r = c # r'" for v r c r'
    using parse_shorter(1) [of s] that(1) skipSpace_shorter [OF that(2)] by fastforce
  then show ?thesis
    by (subst parseElements.simps) (auto split: option.splits list.splits)
qed

lemma parseMembers_unguarded:
  "parseMembers s =
     (case skipSpace s of
        [] \<Rightarrow> None
      | q # s1 \<Rightarrow>
          if q = CHR 0x22 then
            (case scanString s1 of
               None \<Rightarrow> None
             | Some (key, s2) \<Rightarrow>
                 (case skipSpace s2 of
                    [] \<Rightarrow> None
                  | c # s3 \<Rightarrow>
                      if c = CHR '':'' then
                        (case parseValue s3 of
                           None \<Rightarrow> None
                         | Some (v, r) \<Rightarrow>
                             (case skipSpace r of
                                [] \<Rightarrow> None
                              | c' # r' \<Rightarrow>
                                  if c' = CHR '','' then
                                    (case parseMembers r' of
                                       None \<Rightarrow> None
                                     | Some (ms, rest) \<Rightarrow> Some ((key, v) # ms, rest))
                                  else if c' = CHR ''}'' then Some ([(key, v)], r')
                                  else None))
                      else None))
          else None)"
proof -
  have g1: "length s3 < length s"
    if "skipSpace s = q # s1" "scanString s1 = Some (key, s2)" "skipSpace s2 = c # s3"
    for q s1 key s2 c s3
    using skipSpace_shorter [OF that(1)] scanString_shorter [OF that(2)] skipSpace_shorter [OF that(3)]
    by simp
  have g2: "length r' < length s"
    if "skipSpace s = q # s1" "scanString s1 = Some (key, s2)" "skipSpace s2 = c # s3"
      "parseValue s3 = Some (v, r)" "skipSpace r = c' # r'"
    for q s1 key s2 c s3 v r c' r'
    using g1 [OF that(1-3)] parse_shorter(1) [of s3] that(4) skipSpace_shorter [OF that(5)]
    by fastforce
  show ?thesis
    by (subst parseMembers.simps) (auto split: option.splits list.splits dest: g1 g2)
qed

text \<open>A body that is a JSON object begins with one.\<close>

lemma JSON_object_body_begins:
  "JSON_object_body float64_ok s \<Longrightarrow> begins_with_object float64_ok s"
  by (auto simp: JSON_object_body_def begins_with_object_def
      split: option.splits prod.splits json.splits)

text \<open>
  The decoder gives a map and no error exactly on an open body that begins with a JSON
  object whose numbers are in range, and the map holds the members of that object.
\<close>

lemma Decoder_Decode_ret:
  "\<exists>ret err body'.
     Decoder_Decode float64_ok body = (ret, err, body') \<and>
     ((err = None \<and> ret \<noteq> None) \<longleftrightarrow>
        (\<not> closed body \<and> begins_with_object float64_ok (pending body))) \<and>
     (\<forall>ms rest. \<not> closed body \<and> parseValue (pending body) = Some (JObject ms, rest) \<and>
        list_all float64_ok (numbers (JObject ms)) \<longrightarrow> ret = Some ms \<and> err = None)"
  by (auto simp: Decoder_Decode_def begins_with_object_def isContainer_def
      split: option.splits prod.splits json.splits)

text \<open>
  Claim C4 says that \<open>ResponseToMap\<close> returns nil for every response whose body is
  not a JSON object decodable into a mapping. The body \<open>{} x\<close> is not a JSON object,
  since bytes other than white space follow the braces; the decoder stops behind the
  first value, and \<open>ResponseToMap\<close> returns the empty mapping, which is not nil.
\<close>

theorem ResponseToMap_trailing_bytes_counterexample:
  "\<not> JSON_object_body (\<lambda>lit. True) ''{} x'' \<and>
   ResponseToMap (Decoder_Decode (\<lambda>lit. True))
     (Some \<lparr>StatusCode = 200, Body = \<lparr>pending = ''{} x'', failure = None, closed = False\<rparr>\<rparr>) =
     Return (Some [], \<lparr>StatusCode = 200, Body = \<lparr>pending = [], failure = None, closed = True\<rparr>\<rparr>)"
proof -
  have p: "parseValue ''{} x'' = Some (JObject [], '' x'')" by code_simp
  have s: "skipSpace '' x'' = ''x''" by code_simp
  show ?thesis
    by (simp add: JSON_object_body_def ResponseToMap_def Decoder_Decode_def p s isContainer_def
        Close_def)
qed

text \<open>
  Claim C4 as amended: on a response, \<open>ResponseToMap\<close> returns, with no error and no
  panic, and closes the body. The result is nil unless the body, not yet closed, begins
  after white space with a well-formed JSON object whose numbers are in range; then the
  result is the mapping of that object, whatever bytes follow it. In particular a body
  that is a JSON object gives its mapping. The status code is not looked at: the result
  is the same for every status code.
\<close>

theorem ResponseToMap_nil_unless_first_object:
  "\<exists>ret resp'.
     ResponseToMap (Decoder_Decode float64_ok) (Some resp) = Return (ret, resp') \<and>
     closed (Body resp') \<and>
     (ret \<noteq> None \<longleftrightarrow>
        \<not> closed (Body resp) \<and> begins_with_object float64_ok (pending (Body resp))) \<and>
     (\<forall>ms rest.
        \<not> closed (Body resp) \<and> parseValue (pending (Body resp)) = Some (JObject ms, rest) \<and>
        list_all float64_ok (numbers (JObject ms)) \<longrightarrow> ret = Some ms) \<and>
     (\<not> closed (Body resp) \<and> JSON_object_body float64_ok (pending (Body resp)) \<longrightarrow>
        ret \<noteq> None) \<and>
     (\<forall>code. \<exists>resp''.
        ResponseToMap (Decoder_Decode float64_ok) (Some (resp\<lparr>StatusCode := code\<rparr>)) =
          Return (ret, resp''))"
proof -
  obtain ret err body' where d: "Decoder_Decode float64_ok (Body resp) = (ret, err, body')"
    and iff: "(err = None \<and> ret \<noteq> None) \<longleftrightarrow>
        (\<not> closed (Body resp) \<and> begins_with_object float64_ok (pending (Body resp)))"
    and obj: "\<forall>ms rest. \<not> closed (Body resp) \<and>
        parseValue (pending (Body resp)) = Some (JObject ms, rest) \<and>
        list_all float64_ok (numbers (JObject ms)) \<longrightarrow> ret = Some ms \<and> err = None"
    using Decoder_Decode_ret [of float64_ok "Body resp"] by blast
  let ?ret = "if err \<noteq> None then None else ret"
  have r: "ResponseToMap (Decoder_Decode float64_ok) (Some (resp\<lparr>StatusCode := code\<rparr>)) =
      Return (?ret, resp\<lparr>StatusCode := code, Body := Close body'\<rparr>)" for code
    using d by (simp add: ResponseToMap_def)
  from r [of "StatusCode resp"]
  have "ResponseToMap (Decoder_Decode float64_ok) (Some resp) =
      Return (?ret, resp\<lparr>Body := Close body'\<rparr>)"
    by simp
  moreover have "closed (Body (resp\<lparr>Body := Close body'\<rparr>))" by (simp add: Close_def)
  moreover have i: "?ret \<noteq> None \<longleftrightarrow>
        \<not> closed (Body resp) \<and> begins_with_object float64_ok (pending (Body resp))"
    using iff by auto
  moreover have "\<forall>ms rest.
        \<not> closed (Body resp) \<and> parseValue (pending (Body resp)) = Some (JObject ms, rest) \<and>
        list_all float64_ok (numbers (JObject ms)) \<longrightarrow> ?ret = Some ms"
    using obj by auto
  moreover have "\<not> closed (Body resp) \<and> JSON_object_body float64_ok (pending (Body resp)) \<longrightarrow>
        ?ret \<noteq> None"
    using i JSON_object_body_begins by blast
  moreover have "\<forall>code. \<exists>resp''.
        ResponseToMap (Decoder_Decode float64_ok) (Some (resp\<lparr>StatusCode := code\<rparr>)) =
          Return (?ret, resp'')"
    using r by blast
  ultimately show ?thesis by blast
qed

theorem ResponseToMap_nil_unless_first_object_witness:
  "ResponseToMap (Decoder_Decode (\<lambda>lit. True))
     (Some \<lparr>StatusCode = 500,
            Body = \<lparr>pending = [CHR ''{'', CHR 0x22, CHR ''a'', CHR 0x22, CHR '':'', CHR ''1'', CHR ''}'', CHR '' '', CHR ''x''], failure = None,
                    closed = False\<rparr>\<rparr>) =
     Return (Some [(''a'', JNumber ''1'')],
       \<lparr>StatusCode = 500, Body = \<lparr>pending = [], failure = None, closed = True\<rparr>\<rparr>) \<and>
   ResponseToMap (Decoder_Decode (\<lambda>lit. True))
     (Some \<lparr>StatusCode = 200, Body = \<lparr>pending = ''[1]'', failure = None, closed = False\<rparr>\<rparr>) =
     Return (None, \<lparr>StatusCode = 200, Body = \<lparr>pending = [], failure = None, closed = True\<rparr>\<rparr>)"
proof -
  have p1: "parseValue ([CHR ''{'', CHR 0x22, CHR ''a'', CHR 0x22, CHR '':'', CHR ''1'', CHR ''}'', CHR '' '', CHR ''x'']) =
      Some (JObject [(''a'', JNumber ''1'')], '' x'')"
    by code_simp
  have p2: "parseValue ''[1]'' = Some (JArray [JNumber ''1''], [])" by code_simp
  show ?thesis
    using ResponseToMap_nil_unless_first_object
      [of "\<lambda>lit. True" "\<lparr>StatusCode = 500,
            Body = \<lparr>pending = [CHR ''{'', CHR 0x22, CHR ''a'', CHR 0x22, CHR '':'', CHR ''1'', CHR ''}'', CHR '' '', CHR ''x''], failure = None,
                    closed = False\<rparr>\<rparr>"]
    by (simp add: ResponseToMap_def Decoder_Decode_def p1 p2 isContainer_def Close_def)
qed

end
